theory Spec2Isabelle
  imports Main
begin

section \<open>The object-detection notebook\<close>

text \<open>
  The repository is one Jupyter notebook, \<^verbatim>\<open>camel-aci.ipynb\<close>. Its code cells are
  straight-line Python with one \<^verbatim>\<open>for\<close> loop; everything substantial happens inside
  external collaborators (the MCP toolkit, the model factory, the chat agent). The
  embedding below follows the cells in execution order (``Run All''): every
  statement is a state transformer that may raise, an exception ends the run at
  that statement, and every interaction with the outside (an environment read, a
  collaborator call, a \<^verbatim>\<open>print\<close>) is appended to a trace.

  The collaborators are parameters of the model. What a call returns and whether
  it raises is decided by the \<open>world\<close>, as a function of the calls made so far.
  Objects built by library constructors (\<^verbatim>\<open>MCPToolkit\<close>, \<^verbatim>\<open>BaseMessage\<close>, the model,
  \<^verbatim>\<open>ChatAgent\<close>) are represented by the arguments they were constructed from.
  An import runs library code, which can change the process environment (it can load
  the \<^verbatim>\<open>.env\<close> file): what it does to the environment is decided by the world too.
  A collaborator call can write to standard output (the libraries log there).
  Imports, \<^verbatim>\<open>os.getenv\<close> and \<^verbatim>\<open>print\<close> are taken not to raise, the packages being
  installed by the first cell, and collaborator calls are taken to leave the process
  environment alone.
\<close>

subsection \<open>Values\<close>

datatype exn = NameError string | CollabError string

text \<open>The inner dictionary of \<^verbatim>\<open>mcp_config\<close>, with its three keys.\<close>

record server_cfg =
  command :: string
  args :: "string list"
  env :: "(string \<times> string option) list"

text \<open>
  \<^verbatim>\<open>mcp_config\<close> is a dictionary of dictionaries:
  \<^verbatim>\<open>{"mcpServers": {"aci_apps": {...}}}\<close>. Dictionaries are association lists, in
  insertion order.
\<close>

type_synonym mcp_config = "(string \<times> (string \<times> server_cfg) list) list"

datatype toolkit = MCPToolkit (config_dict: mcp_config)

type_synonym tool = string

datatype model_platform_type = GEMINI

text \<open>
  Values of \<^verbatim>\<open>model_config_dict\<close>. No arithmetic is done on them: the float literal
  is kept as its source text.
\<close>

datatype number = PyFloat string | PyInt int

record model =
  model_platform :: model_platform_type
  model_type :: string
  api_key :: "string option"
  model_config_dict :: "(string \<times> number) list"

record message =
  role_name :: string
  content :: string

datatype agent_memory = AgentMemory

record agent =
  model :: model
  system_message :: message
  tools :: "tool list"
  memory :: "agent_memory option"

record response =
  msg :: message

subsection \<open>Trace, world and state\<close>

datatype event =
    GetEnv string "string option"
  | NewToolkit mcp_config
  | Connect toolkit
  | GetTools toolkit
  | ModelCreate model
  | MakeAssistantMessage string string
  | NewChatAgent agent
  | AStep agent string
  | Print string
  | Disconnect toolkit

text \<open>
  \<open>environ\<close> is the process environment at start, \<open>dotenv_file\<close> the content of the
  \<^verbatim>\<open>.env\<close> file. \<open>import_env m f e\<close> is the process environment after importing module
  \<open>m\<close>, when the file holds \<open>f\<close> and the environment was \<open>e\<close>. \<open>raises h c\<close> says whether
  the collaborator call \<open>c\<close>, made after the events \<open>h\<close>, raises, and \<open>call_output h c\<close>
  is what the call writes to standard output; \<open>tools_reply\<close> and \<open>astep_reply\<close> give
  what \<^verbatim>\<open>get_tools\<close> and \<^verbatim>\<open>astep\<close> return.
\<close>

type_synonym environment = "string \<Rightarrow> string option"

record world =
  environ :: environment
  dotenv_file :: environment
  import_env :: "string \<Rightarrow> environment \<Rightarrow> environment \<Rightarrow> environment"
  raises :: "event list \<Rightarrow> event \<Rightarrow> exn option"
  call_output :: "event list \<Rightarrow> event \<Rightarrow> string"
  tools_reply :: "event list \<Rightarrow> toolkit \<Rightarrow> tool list"
  astep_reply :: "event list \<Rightarrow> agent \<Rightarrow> string \<Rightarrow> response"

text \<open>The notebook's global variables are unbound (\<open>None\<close>) until assigned.\<close>

record state =
  trace :: "event list"
  stdout :: string
  os_environ :: environment
  v_agent_name :: "string option"
  v_system_prompt :: "string option"
  v_mcp_config :: "mcp_config option"
  v_mcp_toolkit :: "toolkit option"
  v_tools :: "tool list option"
  v_model :: "model option"
  v_sys_msg :: "message option"
  v_agent :: "agent option"
  v_tasks :: "string list option"
  v_task :: "string option"
  v_response :: "response option"

type_synonym outcome = "(exn \<times> state) + state"

type_synonym stmt = "state \<Rightarrow> outcome"

definition final :: "outcome \<Rightarrow> state" where
  "final r = (case r of Inl (e, s) \<Rightarrow> s | Inr s \<Rightarrow> s)"

definition failure :: "outcome \<Rightarrow> exn option" where
  "failure r = (case r of Inl (e, s) \<Rightarrow> Some e | Inr s \<Rightarrow> None)"

subsection \<open>Statements\<close>

text \<open>A sequence of statements stops at the first one that raises.\<close>

fun block :: "stmt list \<Rightarrow> stmt" where
  "block [] s = Inr s"
| "block (c # cs) s = (case c s of Inl err \<Rightarrow> Inl err | Inr s' \<Rightarrow> block cs s')"

text \<open>Reading a global variable that is not bound raises \<^verbatim>\<open>NameError\<close>.\<close>

definition read_var :: "string \<Rightarrow> (state \<Rightarrow> 'a option) \<Rightarrow> ('a \<Rightarrow> stmt) \<Rightarrow> stmt" where
  "read_var name var k s =
     (case var s of None \<Rightarrow> Inl (NameError name, s) | Some x \<Rightarrow> k x s)"

text \<open>
  A collaborator call is logged when it is made, and what it writes goes to standard
  output; if it raises, the run ends with the call as the last event of the trace.
\<close>

definition call :: "world \<Rightarrow> event \<Rightarrow> stmt" where
  "call W c s =
     (case raises W (trace s) c of
        Some e \<Rightarrow>
          Inl (e, s\<lparr>trace := trace s @ [c], stdout := stdout s @ call_output W (trace s) c\<rparr>)
      | None \<Rightarrow>
          Inr (s\<lparr>trace := trace s @ [c], stdout := stdout s @ call_output W (trace s) c\<rparr>))"

definition call_then :: "world \<Rightarrow> event \<Rightarrow> (state \<Rightarrow> state) \<Rightarrow> stmt" where
  "call_then W c f s = (case call W c s of Inl err \<Rightarrow> Inl err | Inr s' \<Rightarrow> Inr (f s'))"

definition getenv :: "string \<Rightarrow> state \<Rightarrow> string option \<times> state" where
  "getenv k s = (os_environ s k, s\<lparr>trace := trace s @ [GetEnv k (os_environ s k)]\<rparr>)"

text \<open>
  \<^verbatim>\<open>import m\<close> and \<^verbatim>\<open>from m import x\<close> run the code of module \<open>m\<close>, which sees the
  \<^verbatim>\<open>.env\<close> file and can change the process environment.
\<close>

definition import_module :: "world \<Rightarrow> string \<Rightarrow> stmt" where
  "import_module W m s =
     Inr (s\<lparr>os_environ := import_env W m (dotenv_file W) (os_environ s)\<rparr>)"

subsection \<open>Cell 1: imports\<close>

text \<open>
  \<^verbatim>\<open>import os\<close> and \<^verbatim>\<open>from dotenv import load_dotenv\<close>. The second binds the name
  \<^verbatim>\<open>load_dotenv\<close>; no cell calls it.
\<close>

definition cell1 :: "world \<Rightarrow> stmt" where
  "cell1 W = block [import_module W ''os'', import_module W ''dotenv'']"

subsection \<open>Cell 2: agent name and system prompt\<close>

definition agent_name :: string where
  "agent_name = ''ObjectDetectionAgent''"

definition system_prompt :: string where
  "system_prompt =
     [CHR 0x0A] @
     ''You are a specialized Object Detection Agent. Your primary function is to use the '' @
     ''`REPLICATE.run` tool for object detection and present the findings in a user-friendly '' @
     ''format. '' @
     [CHR 0x22, CHR 0x0A, CHR 0x22] @
     ''The user will provide a text prompt containing an image URL and a query. You must '' @
     ''extract the `image` URL and the `query` object(s). '' @
     [CHR 0x22, CHR 0x0A, CHR 0x22] @
     ''Immediately call the `REPLICATE.run` tool. The `input` must be a dictionary with '' @
     ''two keys: `image` (the URL) and `query` (a string of the object(s)). '' @
     [CHR 0x22, CHR 0x0A, CHR 0x22] @
     ''Do not ask for clarification; make a reasonable inference if the query is ambiguous. '' @
     [CHR 0x22, CHR 0x0A, CHR 0x22] @
     ''After receiving the tool's output, format your response as follows: '' @
     [CHR 0x22, CHR 0x0A, CHR 0x22] @
     ''- **Natural Language Summary:** Start with a detailed friendly, insightful analysis '' @
     ''of the detection results in plain English. '' @
     [CHR 0x22, CHR 0x0A, CHR 0x22] @
     ''- **Markdown Table:** Create a markdown table with columns: 'Object', 'Confidence '' @
     ''Score', and 'Bounding Box Coordinates'. '' @
     [CHR 0x22, CHR 0x0A, CHR 0x22] @
     ''- **Result Image:** If the tool provides a URL for an image with bounding boxes, '' @
     ''display it using markdown: `![Detected Objects](URL_HERE)`. '' @
     [CHR 0x22, CHR 0x0A, CHR 0x22] @
     ''Whenever I give you a link, trigger the tool call, extract its outputs and links, '' @
     ''and present me in a proper markdown format with detailed analysis from the tool '' @
     ''call in natural language.'' @
     [CHR 0x0A]"

definition assign_agent_name :: stmt where
  "assign_agent_name s = Inr (s\<lparr>v_agent_name := Some agent_name\<rparr>)"

definition assign_system_prompt :: stmt where
  "assign_system_prompt s = Inr (s\<lparr>v_system_prompt := Some system_prompt\<rparr>)"

definition cell2 :: stmt where
  "cell2 = block [assign_agent_name, assign_system_prompt]"

subsection \<open>Cell 3: server configuration and connection\<close>

definition mcp_config_dict :: "string option \<Rightarrow> mcp_config" where
  "mcp_config_dict k =
     [(''mcpServers'',
       [(''aci_apps'',
         \<lparr>command = ''aci-mcp'',
          args = [''apps-server'', ''--apps=REPLICATE'', ''--linked-account-owner-id'',
                  ''parthshr370''],
          env = [(''ACI_API_KEY'', k)]\<rparr>)])]"

definition assign_mcp_config :: stmt where
  "assign_mcp_config s =
     (case getenv ''ACI_API_KEY'' s of
        (k, s') \<Rightarrow> Inr (s'\<lparr>v_mcp_config := Some (mcp_config_dict k)\<rparr>))"

definition new_toolkit :: "world \<Rightarrow> stmt" where
  "new_toolkit W =
     read_var ''mcp_config'' v_mcp_config (\<lambda>c.
       call_then W (NewToolkit c) (\<lambda>s. s\<lparr>v_mcp_toolkit := Some (MCPToolkit c)\<rparr>))"

definition await_connect :: "world \<Rightarrow> stmt" where
  "await_connect W = read_var ''mcp_toolkit'' v_mcp_toolkit (\<lambda>tk. call W (Connect tk))"

text \<open>The cell starts with \<^verbatim>\<open>from camel.toolkits import MCPToolkit\<close>.\<close>

definition cell3 :: "world \<Rightarrow> stmt" where
  "cell3 W =
     block [import_module W ''camel.toolkits'', assign_mcp_config, new_toolkit W,
       await_connect W]"

subsection \<open>Cell 4: tools, model, system message, agent\<close>

definition get_tools :: "world \<Rightarrow> stmt" where
  "get_tools W =
     read_var ''mcp_toolkit'' v_mcp_toolkit (\<lambda>tk s.
       call_then W (GetTools tk) (\<lambda>s'. s'\<lparr>v_tools := Some (tools_reply W (trace s) tk)\<rparr>) s)"

definition gemini_model :: "string option \<Rightarrow> model" where
  "gemini_model k =
     \<lparr>model_platform = GEMINI, model_type = ''gemini-2.5-flash'', api_key = k,
      model_config_dict = [(''temperature'', PyFloat ''0.0''), (''max_tokens'', PyInt 4096)]\<rparr>"

definition create_model :: "world \<Rightarrow> stmt" where
  "create_model W s =
     (case getenv ''GOOGLE_API_KEY'' s of
        (k, s') \<Rightarrow>
          call_then W (ModelCreate (gemini_model k))
            (\<lambda>s''. s''\<lparr>v_model := Some (gemini_model k)\<rparr>) s')"

definition make_sys_msg :: "world \<Rightarrow> stmt" where
  "make_sys_msg W =
     read_var ''agent_name'' v_agent_name (\<lambda>n.
     read_var ''system_prompt'' v_system_prompt (\<lambda>p.
       call_then W (MakeAssistantMessage n p)
         (\<lambda>s. s\<lparr>v_sys_msg := Some \<lparr>role_name = n, content = p\<rparr>\<rparr>)))"

definition new_agent :: "world \<Rightarrow> stmt" where
  "new_agent W =
     read_var ''model'' v_model (\<lambda>m.
     read_var ''sys_msg'' v_sys_msg (\<lambda>sm.
     read_var ''tools'' v_tools (\<lambda>ts.
       call_then W
         (NewChatAgent \<lparr>model = m, system_message = sm, tools = ts, memory = None\<rparr>)
         (\<lambda>s. s\<lparr>v_agent :=
                 Some \<lparr>model = m, system_message = sm, tools = ts, memory = None\<rparr>\<rparr>))))"

text \<open>
  The cell starts with the imports of \<^verbatim>\<open>ChatAgent\<close>, \<^verbatim>\<open>BaseMessage\<close>, \<^verbatim>\<open>ModelFactory\<close> and
  \<^verbatim>\<open>ModelPlatformType\<close>.
\<close>

definition cell4 :: "world \<Rightarrow> stmt" where
  "cell4 W =
     block [import_module W ''camel.agents'', import_module W ''camel.messages'',
       import_module W ''camel.models'', import_module W ''camel.types'',
       get_tools W, create_model W, make_sys_msg W, new_agent W]"

subsection \<open>Cell 5: the task loop\<close>

definition task_1 :: string where
  "task_1 =
       ''Analyze the vegetable stall and identify all produce, including tomato, onion, cabbage, '' @
       ''cucumber, zucchini, carrot, and beet, in this image: https://images.pexels.com/photos/2255935/pexels-photo-2255935.jpeg''"

definition task_2 :: string where
  "task_2 =
       ''Analyze the busy street scene and identify all vehicles, such as car, bus, and truck, '' @
       ''as well as people, in this image: https://www.livemint.com/rf/Image-621x414/LiveMint/Period1/2012/10/01/Photos/Road621.jpg''"

definition task_3 :: string where
  "task_3 =
       ''Analyze the warehouse scene and identify persons, cardboard boxes, and conveyor '' @
       ''belts in this image: https://media.business-humanrights.org/media/images/16278498935_dac4d8f223_o.2e16d0ba.fill-1000x1000-c50.jpg''"

definition tasks :: "string list" where
  "tasks = [task_1, task_2, task_3]"

definition assign_tasks :: "string list \<Rightarrow> stmt" where
  "assign_tasks ts s = Inr (s\<lparr>v_tasks := Some ts\<rparr>)"

definition assign_task :: "string \<Rightarrow> stmt" where
  "assign_task t s = Inr (s\<lparr>v_task := Some t\<rparr>)"

definition await_astep :: "world \<Rightarrow> stmt" where
  "await_astep W =
     read_var ''agent'' v_agent (\<lambda>ag.
     read_var ''task'' v_task (\<lambda>t s.
       call_then W (AStep ag t)
         (\<lambda>s'. s'\<lparr>v_response := Some (astep_reply W (trace s) ag t)\<rparr>) s))"

text \<open>\<^verbatim>\<open>print(x)\<close> writes \<open>x\<close> and a line feed.\<close>

definition print_response :: stmt where
  "print_response =
     read_var ''response'' v_response (\<lambda>r s.
       Inr (s\<lparr>trace := trace s @ [Print (content (msg r))],
              stdout := stdout s @ content (msg r) @ [CHR 0x0A]\<rparr>))"

definition loop_body :: "world \<Rightarrow> string \<Rightarrow> stmt" where
  "loop_body W t = block [assign_task t, await_astep W, print_response]"

fun for_tasks :: "world \<Rightarrow> string list \<Rightarrow> stmt" where
  "for_tasks W [] s = Inr s"
| "for_tasks W (t # ts) s =
     (case loop_body W t s of Inl err \<Rightarrow> Inl err | Inr s' \<Rightarrow> for_tasks W ts s')"

definition for_loop :: "world \<Rightarrow> stmt" where
  "for_loop W = read_var ''tasks'' v_tasks (\<lambda>ts. for_tasks W ts)"

text \<open>The cell, with the tuple assigned to \<^verbatim>\<open>tasks\<close> as a parameter.\<close>

definition cell5 :: "world \<Rightarrow> string list \<Rightarrow> stmt" where
  "cell5 W ts = block [assign_tasks ts, for_loop W]"

subsection \<open>Cell 6: teardown\<close>

definition await_disconnect :: "world \<Rightarrow> stmt" where
  "await_disconnect W =
     read_var ''mcp_toolkit'' v_mcp_toolkit (\<lambda>tk. call W (Disconnect tk))"

definition cell6 :: "world \<Rightarrow> stmt" where
  "cell6 W = await_disconnect W"

subsection \<open>The whole notebook\<close>

definition init :: "world \<Rightarrow> state" where
  "init W =
     \<lparr>trace = [], stdout = [], os_environ = environ W,
      v_agent_name = None, v_system_prompt = None, v_mcp_config = None,
      v_mcp_toolkit = None, v_tools = None, v_model = None, v_sys_msg = None,
      v_agent = None, v_tasks = None, v_task = None, v_response = None\<rparr>"

definition run_cells :: "world \<Rightarrow> string list \<Rightarrow> outcome" where
  "run_cells W ts = block [cell1 W, cell2, cell3 W, cell4 W, cell5 W ts, cell6 W] (init W)"

definition notebook :: "world \<Rightarrow> outcome" where
  "notebook W = run_cells W tasks"


section \<open>What a run does, as plain lists\<close>

text \<open>
  The process environment when cell 3 reads \<^verbatim>\<open>ACI_API_KEY\<close>, after the imports of
  cells 1 and 3, and when cell 4 reads \<^verbatim>\<open>GOOGLE_API_KEY\<close>, after the imports of cell 4.
\<close>

definition environ_cell3 :: "world \<Rightarrow> environment" where
  "environ_cell3 W =
     import_env W ''camel.toolkits'' (dotenv_file W)
       (import_env W ''dotenv'' (dotenv_file W)
         (import_env W ''os'' (dotenv_file W) (environ W)))"

definition environ_cell4 :: "world \<Rightarrow> environment" where
  "environ_cell4 W =
     import_env W ''camel.types'' (dotenv_file W)
       (import_env W ''camel.models'' (dotenv_file W)
         (import_env W ''camel.messages'' (dotenv_file W)
           (import_env W ''camel.agents'' (dotenv_file W) (environ_cell3 W))))"

text \<open>
  The objects the set-up cells build, and the events they emit when nothing raises.
\<close>

definition the_config :: "world \<Rightarrow> mcp_config" where
  "the_config W = mcp_config_dict (environ_cell3 W ''ACI_API_KEY'')"

definition the_toolkit :: "world \<Rightarrow> toolkit" where
  "the_toolkit W = MCPToolkit (the_config W)"

definition the_model :: "world \<Rightarrow> model" where
  "the_model W = gemini_model (environ_cell4 W ''GOOGLE_API_KEY'')"

definition the_sys_msg :: message where
  "the_sys_msg = \<lparr>role_name = agent_name, content = system_prompt\<rparr>"

definition the_tools :: "world \<Rightarrow> tool list" where
  "the_tools W =
     tools_reply W
       [GetEnv ''ACI_API_KEY'' (environ_cell3 W ''ACI_API_KEY''), NewToolkit (the_config W),
        Connect (the_toolkit W)]
       (the_toolkit W)"

definition the_agent :: "world \<Rightarrow> agent" where
  "the_agent W =
     \<lparr>model = the_model W, system_message = the_sys_msg, tools = the_tools W, memory = None\<rparr>"

definition setup_events :: "world \<Rightarrow> event list" where
  "setup_events W =
     [GetEnv ''ACI_API_KEY'' (environ_cell3 W ''ACI_API_KEY''),
      NewToolkit (the_config W),
      Connect (the_toolkit W),
      GetTools (the_toolkit W),
      GetEnv ''GOOGLE_API_KEY'' (environ_cell4 W ''GOOGLE_API_KEY''),
      ModelCreate (the_model W),
      MakeAssistantMessage agent_name system_prompt,
      NewChatAgent (the_agent W)]"

text \<open>
  The events of the task loop started after the events \<open>h\<close>, when no call raises:
  for each task the call and the \<^verbatim>\<open>print\<close> of what it returned.
\<close>

fun loop_events :: "world \<Rightarrow> agent \<Rightarrow> event list \<Rightarrow> string list \<Rightarrow> event list" where
  "loop_events W ag h [] = []"
| "loop_events W ag h (t # ts) =
     AStep ag t # Print (content (msg (astep_reply W h ag t))) #
     loop_events W ag (h @ [AStep ag t, Print (content (msg (astep_reply W h ag t)))]) ts"

text \<open>All events of a run in which nothing raises.\<close>

definition planned :: "world \<Rightarrow> string list \<Rightarrow> event list" where
  "planned W ts =
     setup_events W @ loop_events W (the_agent W) (setup_events W) ts @
     [Disconnect (the_toolkit W)]"

text \<open>
  Collaborator calls can raise; environment reads and \<^verbatim>\<open>print\<close> cannot.
  \<open>until_raise W h cs\<close> makes the calls \<open>cs\<close> after the events \<open>h\<close> up to and including
  the first that raises.
\<close>

fun fallible :: "event \<Rightarrow> bool" where
  "fallible (GetEnv k v) = False"
| "fallible (Print x) = False"
| "fallible c = True"

fun until_raise :: "world \<Rightarrow> event list \<Rightarrow> event list \<Rightarrow> event list \<times> exn option" where
  "until_raise W h [] = ([], None)"
| "until_raise W h (c # cs) =
     (case (if fallible c then raises W h c else None) of
        Some e \<Rightarrow> ([c], Some e)
      | None \<Rightarrow> (case until_raise W (h @ [c]) cs of (r, x) \<Rightarrow> (c # r, x)))"

text \<open>What the \<^verbatim>\<open>print\<close> events of a trace write to standard output.\<close>

fun printed :: "event list \<Rightarrow> string" where
  "printed [] = []"
| "printed (Print x # es) = x @ [CHR 0x0A] @ printed es"
| "printed (e # es) = printed es"

text \<open>
  What one event made after the events \<open>h\<close> writes to standard output, and what the
  events \<open>es\<close> made after \<open>h\<close> write, in order: the printed strings and, between them,
  what the collaborators wrote during their calls.
\<close>

fun written :: "world \<Rightarrow> event list \<Rightarrow> event \<Rightarrow> string" where
  "written W h (Print x) = x @ [CHR 0x0A]"
| "written W h (GetEnv k v) = []"
| "written W h c = call_output W h c"

fun console :: "world \<Rightarrow> event list \<Rightarrow> event list \<Rightarrow> string" where
  "console W h [] = []"
| "console W h (e # es) = written W h e @ console W (h @ [e]) es"

text \<open>Cells 1 to 4, and the state they leave when nothing raises.\<close>

definition setup_cells :: "world \<Rightarrow> outcome" where
  "setup_cells W = block [cell1 W, cell2, cell3 W, cell4 W] (init W)"

definition after_setup :: "world \<Rightarrow> state" where
  "after_setup W = (init W)\<lparr>trace := setup_events W,
      stdout := console W [] (setup_events W), os_environ := environ_cell4 W,
      v_agent_name := Some agent_name, v_system_prompt := Some system_prompt,
      v_mcp_config := Some (the_config W), v_mcp_toolkit := Some (the_toolkit W),
      v_tools := Some (the_tools W), v_model := Some (the_model W),
      v_sys_msg := Some the_sys_msg, v_agent := Some (the_agent W)\<rparr>"

text \<open>
  The state in which the task loop starts when the set-up cells have completed, and
  a state without the parts that cell 5 writes (the trace, standard output and the
  variables \<^verbatim>\<open>tasks\<close>, \<^verbatim>\<open>task\<close> and \<^verbatim>\<open>response\<close>).
\<close>

definition loop_start :: "world \<Rightarrow> string list \<Rightarrow> state" where
  "loop_start W ts = (after_setup W)\<lparr>v_tasks := Some ts\<rparr>"



subsection \<open>Reading a trace\<close>

text \<open>The tasks passed to \<^verbatim>\<open>astep\<close>, in the order of the calls.\<close>

fun astep_tasks :: "event list \<Rightarrow> string list" where
  "astep_tasks [] = []"
| "astep_tasks (AStep a t # es) = t # astep_tasks es"
| "astep_tasks (e # es) = astep_tasks es"

text \<open>The names read from the environment.\<close>

fun env_reads :: "event list \<Rightarrow> string list" where
  "env_reads [] = []"
| "env_reads (GetEnv k v # es) = k # env_reads es"
| "env_reads (e # es) = env_reads es"


fun disconnects :: "event list \<Rightarrow> toolkit list" where
  "disconnects [] = []"
| "disconnects (Disconnect tk # es) = tk # disconnects es"
| "disconnects (e # es) = disconnects es"

text \<open>The entries of the \<^verbatim>\<open>env\<close> mappings of all servers of a configuration.\<close>

definition config_env :: "mcp_config \<Rightarrow> (string \<times> string option) list" where
  "config_env c = concat (map (\<lambda>(n, servers). concat (map (\<lambda>(m, sc). env sc) servers)) c)"

subsection \<open>Mock collaborators\<close>

text \<open>
  A world in which all four secrets are set, imports leave the environment alone, no
  call raises or writes, and the agent answers every task with the same one-line
  text.
\<close>

definition car_response :: response where
  "car_response = \<lparr>msg = \<lparr>role_name = ''Assistant'', content = ''1 car found''\<rparr>\<rparr>"

definition mock_world :: world where
  "mock_world =
     \<lparr>environ = [''ACI_API_KEY'' \<mapsto> ''aci-key'', ''LINKED_ACCOUNT_OWNER_ID'' \<mapsto> ''owner-1'',
                 ''GOOGLE_API_KEY'' \<mapsto> ''google-key'', ''REPLICATE_API_TOKEN'' \<mapsto> ''r8-token''],
      dotenv_file = Map.empty,
      import_env = (\<lambda>m f e. e),
      raises = (\<lambda>h c. None),
      call_output = (\<lambda>h c. []),
      tools_reply = (\<lambda>h tk. [''REPLICATE__RUN'']),
      astep_reply = (\<lambda>h a t. car_response)\<rparr>"

text \<open>The agent raises on its second invocation; nothing else raises.\<close>

definition second_raises :: "exn \<Rightarrow> event list \<Rightarrow> event \<Rightarrow> exn option" where
  "second_raises e h c =
     (case c of
        AStep a t \<Rightarrow> if length (astep_tasks h) = 1 then Some e else None
      | _ \<Rightarrow> None)"

definition failing_world :: world where
  "failing_world = mock_world\<lparr>raises := second_raises (CollabError ''agent failed'')\<rparr>"

text \<open>The connection fails.\<close>

definition connect_raises :: "event list \<Rightarrow> event \<Rightarrow> exn option" where
  "connect_raises h c =
     (case c of Connect tk \<Rightarrow> Some (CollabError ''connection refused'') | _ \<Rightarrow> None)"

definition offline_world :: world where
  "offline_world = mock_world\<lparr>raises := connect_raises\<rparr>"

text \<open>No secret is set in the process environment; the \<^verbatim>\<open>.env\<close> file has them all.\<close>

definition bare_world :: world where
  "bare_world =
     mock_world\<lparr>environ := Map.empty,
       dotenv_file := [''ACI_API_KEY'' \<mapsto> ''aci-key'', ''LINKED_ACCOUNT_OWNER_ID'' \<mapsto> ''owner-1'',
                 ''GOOGLE_API_KEY'' \<mapsto> ''google-key'', ''REPLICATE_API_TOKEN'' \<mapsto> ''r8-token'']\<rparr>"

text \<open>
  The same, with a camel whose import loads the \<^verbatim>\<open>.env\<close> file as \<^verbatim>\<open>load_dotenv\<close> does
  by default: the variables of the file that the environment does not have are added.
\<close>

definition load_dotenv :: "environment \<Rightarrow> environment \<Rightarrow> environment" where
  "load_dotenv f e = (\<lambda>k. case e k of Some v \<Rightarrow> Some v | None \<Rightarrow> f k)"

definition camel_world :: world where
  "camel_world =
     bare_world\<lparr>import_env :=
       (\<lambda>m f e. if m = ''camel.toolkits'' then load_dotenv f e else e)\<rparr>"




section \<open>Lemmas on lists of events\<close>

lemma block_append:
  "block (xs @ ys) s = (case block xs s of Inl err \<Rightarrow> Inl err | Inr s' \<Rightarrow> block ys s')"
  by (induction xs arbitrary: s) (auto split: sum.splits)

lemma until_raise_append:
  "until_raise W h (xs @ ys) =
     (case until_raise W h xs of
        (r, Some e) \<Rightarrow> (r, Some e)
      | (r, None) \<Rightarrow> (case until_raise W (h @ xs) ys of (r', x) \<Rightarrow> (xs @ r', x)))"
  by (induction xs arbitrary: h) (auto split: option.splits prod.splits)

lemma until_raise_None: "until_raise W h xs = (r, None) \<Longrightarrow> r = xs"
  by (induction xs arbitrary: h r) (auto split: option.splits prod.splits if_splits)

lemma until_raise_append_Some:
  "snd (until_raise W h xs) = Some e \<Longrightarrow> until_raise W h (xs @ ys) = until_raise W h xs"
  by (cases "until_raise W h xs") (simp add: until_raise_append)

lemma until_raise_append_None:
  "snd (until_raise W h xs) = None \<Longrightarrow>
   until_raise W h (xs @ ys) =
     (xs @ fst (until_raise W (h @ xs) ys), snd (until_raise W (h @ xs) ys))"
  by (cases "until_raise W h xs") (simp add: until_raise_append split: prod.splits)

lemma until_raise_None_eq:
  "snd (until_raise W h xs) = None \<Longrightarrow> until_raise W h xs = (xs, None)"
  using until_raise_None [of W h xs "fst (until_raise W h xs)"]
  by (cases "until_raise W h xs") simp

lemma console_append: "console W h (xs @ ys) = console W h xs @ console W (h @ xs) ys"
  by (induction xs arbitrary: h) auto

lemma console_quiet: "(\<And>h c. call_output W h c = []) \<Longrightarrow> console W h es = printed es"
proof (induction es arbitrary: h)
  case Nil
  then show ?case by simp
next
  case (Cons e es)
  then show ?case by (cases e) simp_all
qed

lemma until_raise_take_aux:
  "until_raise W h xs = (r, x) \<Longrightarrow> r = take (length r) xs"
  by (induction xs arbitrary: h r x) (auto split: option.splits prod.splits if_splits)

lemma until_raise_take:
  "fst (until_raise W h xs) = take (length (fst (until_raise W h xs))) xs"
  using until_raise_take_aux [of W h xs] by (cases "until_raise W h xs") simp

lemma until_raise_not_last:
  "Suc p < length (fst (until_raise W h xs)) \<Longrightarrow> fallible (xs ! p) \<Longrightarrow>
   raises W (h @ take p xs) (xs ! p) = None"
proof (induction xs arbitrary: h p)
  case Nil
  then show ?case by simp
next
  case (Cons c cs)
  show ?case
  proof (cases p)
    case 0
    then show ?thesis using Cons.prems by (auto split: option.splits prod.splits if_splits)
  next
    case (Suc q)
    then show ?thesis
      using Cons.prems Cons.IH [of q "h @ [c]"]
      by (auto split: option.splits prod.splits if_splits)
  qed
qed

lemma until_raise_Some:
  "snd (until_raise W h xs) = Some e \<Longrightarrow>
   fst (until_raise W h xs) \<noteq> [] \<and> fallible (last (fst (until_raise W h xs))) \<and>
   raises W (h @ butlast (fst (until_raise W h xs))) (last (fst (until_raise W h xs))) = Some e"
proof (induction xs arbitrary: h)
  case Nil
  then show ?case by simp
next
  case (Cons c cs)
  show ?case
  proof (cases "if fallible c then raises W h c else None")
    case None
    obtain r x where rx: "until_raise W (h @ [c]) cs = (r, x)" by (cases "until_raise W (h @ [c]) cs")
    have "x = Some e" using Cons.prems None rx by simp
    then have "r \<noteq> [] \<and> fallible (last r) \<and> raises W ((h @ [c]) @ butlast r) (last r) = Some e"
      using Cons.IH [of "h @ [c]"] rx by simp
    then show ?thesis using None rx by simp
  next
    case (Some e')
    then show ?thesis using Cons.prems by (auto split: if_splits)
  qed
qed

lemma until_raise_None_all:
  "snd (until_raise W h xs) = None \<Longrightarrow> p < length xs \<Longrightarrow> fallible (xs ! p) \<Longrightarrow>
   raises W (h @ take p xs) (xs ! p) = None"
proof (induction xs arbitrary: h p)
  case Nil
  then show ?case by simp
next
  case (Cons c cs)
  show ?case
  proof (cases p)
    case 0
    then show ?thesis using Cons.prems by (auto split: option.splits prod.splits if_splits)
  next
    case (Suc q)
    then show ?thesis
      using Cons.prems Cons.IH [of "h @ [c]" q]
      by (auto split: option.splits prod.splits if_splits)
  qed
qed

lemma length_loop_events: "length (loop_events W ag h ts) = 2 * length ts"
  by (induction ts arbitrary: h) auto

lemma set_loop_events:
  "e \<in> set (loop_events W ag h ts) \<Longrightarrow> (\<exists>t\<in>set ts. e = AStep ag t) \<or> (\<exists>x. e = Print x)"
  by (induction ts arbitrary: h) auto

lemma loop_events_nth:
  "i < length ts \<Longrightarrow>
   loop_events W ag h ts ! (2 * i) = AStep ag (ts ! i) \<and>
   loop_events W ag h ts ! Suc (2 * i) =
     Print (content (msg (astep_reply W (h @ take (2 * i) (loop_events W ag h ts)) ag (ts ! i))))"
proof (induction ts arbitrary: h i)
  case Nil
  then show ?case by simp
next
  case (Cons t ts)
  show ?case
  proof (cases i)
    case 0
    then show ?thesis by simp
  next
    case (Suc j)
    then have "j < length ts" using Cons.prems by simp
    from Cons.IH [OF this, of "h @ [AStep ag t, Print (content (msg (astep_reply W h ag t)))]"]
    show ?thesis using Suc by simp
  qed
qed

lemma astep_tasks_take_loop:
  "astep_tasks (take m (loop_events W ag h ts)) = take (Suc m div 2) ts"
proof (induction ts arbitrary: h m)
  case Nil
  then show ?case by simp
next
  case (Cons t ts)
  show ?case
  proof (cases m)
    case 0
    then show ?thesis by simp
  next
    case (Suc k)
    show ?thesis
    proof (cases k)
      case 0
      then show ?thesis using Suc by simp
    next
      case (Suc j)
      then show ?thesis using \<open>m = Suc k\<close> Cons.IH [of j] by simp
    qed
  qed
qed

lemma astep_tasks_append: "astep_tasks (xs @ ys) = astep_tasks xs @ astep_tasks ys"
  by (induction xs rule: astep_tasks.induct) auto

lemma astep_tasks_loop: "astep_tasks (loop_events W ag h ts) = ts"
  by (induction ts arbitrary: h) auto

subsection \<open>The layout of a run in which nothing raises\<close>

lemma length_setup_events: "length (setup_events W) = 8"
  by (simp add: setup_events_def)

lemma length_planned: "length (planned W ts) = 9 + 2 * length ts"
  by (simp add: planned_def length_setup_events length_loop_events)

lemma planned_nth_setup: "p < 8 \<Longrightarrow> planned W ts ! p = setup_events W ! p"
  by (simp add: planned_def nth_append length_setup_events)

lemma planned_nth_loop:
  "j < 2 * length ts \<Longrightarrow>
   planned W ts ! (8 + j) = loop_events W (the_agent W) (setup_events W) ts ! j"
  by (simp add: planned_def nth_append length_setup_events length_loop_events)

lemma planned_take_loop:
  "j \<le> 2 * length ts \<Longrightarrow>
   take (8 + j) (planned W ts) =
     setup_events W @ take j (loop_events W (the_agent W) (setup_events W) ts)"
  by (simp add: planned_def length_setup_events length_loop_events)

lemma planned_nth_astep:
  "i < length ts \<Longrightarrow> planned W ts ! (8 + 2 * i) = AStep (the_agent W) (ts ! i)"
  using planned_nth_loop [of "2 * i" ts W] loop_events_nth [of i ts W "the_agent W" "setup_events W"]
  by simp

lemma planned_nth_print:
  "i < length ts \<Longrightarrow>
   planned W ts ! (9 + 2 * i) =
     Print (content (msg (astep_reply W (take (8 + 2 * i) (planned W ts)) (the_agent W) (ts ! i))))"
  using planned_nth_loop [of "Suc (2 * i)" ts W]
    loop_events_nth [of i ts W "the_agent W" "setup_events W"]
    planned_take_loop [of "2 * i" ts W]
  by simp

lemma planned_nth_disconnect:
  "planned W ts ! (8 + 2 * length ts) = Disconnect (the_toolkit W)"
  by (simp add: planned_def nth_append length_setup_events length_loop_events)

lemma planned_positions:
  "p < length (planned W ts) \<Longrightarrow>
   p < 8 \<or> (\<exists>i<length ts. p = 8 + 2 * i \<or> p = 9 + 2 * i) \<or> p = 8 + 2 * length ts"
  unfolding length_planned by presburger

lemma setup_events_cases:
  "p < 8 \<Longrightarrow>
   setup_events W ! p \<in>
     {GetEnv ''ACI_API_KEY'' (environ_cell3 W ''ACI_API_KEY''), NewToolkit (the_config W),
      Connect (the_toolkit W), GetTools (the_toolkit W),
      GetEnv ''GOOGLE_API_KEY'' (environ_cell4 W ''GOOGLE_API_KEY''), ModelCreate (the_model W),
      MakeAssistantMessage agent_name system_prompt, NewChatAgent (the_agent W)}"
  using nth_mem [of p "setup_events W"] by (simp add: setup_events_def)

lemma planned_AStep_pos:
  assumes "p < length (planned W ts)" "planned W ts ! p = AStep a t"
  shows "\<exists>i<length ts. p = 8 + 2 * i \<and> a = the_agent W \<and> t = ts ! i"
proof -
  from planned_positions [OF assms(1)]
  consider "p < 8" | i where "i < length ts" "p = 8 + 2 * i"
    | i where "i < length ts" "p = 9 + 2 * i" | "p = 8 + 2 * length ts"
    by blast
  then show ?thesis
  proof cases
    case 1
    then show ?thesis
      using assms(2) setup_events_cases [OF 1, of W] by (auto simp: planned_nth_setup)
  next
    case 2
    then show ?thesis using assms(2) planned_nth_astep [of i ts W] by auto
  next
    case 3
    then show ?thesis using assms(2) planned_nth_print [of i ts W] by auto
  next
    case 4
    then show ?thesis using assms(2) planned_nth_disconnect [of W ts] by auto
  qed
qed


lemma planned_Disconnect_pos:
  assumes "p < length (planned W ts)" "planned W ts ! p = Disconnect tk"
  shows "p = 8 + 2 * length ts \<and> tk = the_toolkit W"
proof -
  from planned_positions [OF assms(1)]
  consider "p < 8" | i where "i < length ts" "p = 8 + 2 * i"
    | i where "i < length ts" "p = 9 + 2 * i" | "p = 8 + 2 * length ts"
    by blast
  then show ?thesis
  proof cases
    case 1
    then show ?thesis
      using assms(2) setup_events_cases [OF 1, of W] by (auto simp: planned_nth_setup)
  next
    case 2
    then show ?thesis using assms(2) planned_nth_astep [of i ts W] by auto
  next
    case 3
    then show ?thesis using assms(2) planned_nth_print [of i ts W] by auto
  next
    case 4
    then show ?thesis using assms(2) planned_nth_disconnect [of W ts] by auto
  qed
qed

lemma planned_set:
  "e \<in> set (planned W ts) \<Longrightarrow>
   e \<in> set (setup_events W) \<or> (\<exists>t\<in>set ts. e = AStep (the_agent W) t) \<or> (\<exists>x. e = Print x) \<or>
   e = Disconnect (the_toolkit W)"
  using set_loop_events [of e W "the_agent W" "setup_events W" ts]
  by (auto simp: planned_def)

section \<open>The run of the cells\<close>

text \<open>
  The set-up cells either leave \<open>after_setup\<close> or end at the first call that raises.
\<close>

lemmas stmt_defs = cell1_def cell2_def cell3_def cell4_def assign_agent_name_def
  assign_system_prompt_def assign_mcp_config_def new_toolkit_def await_connect_def
  get_tools_def create_model_def make_sys_msg_def new_agent_def read_var_def call_def
  call_then_def getenv_def import_module_def init_def

lemmas obj_defs = the_config_def the_toolkit_def the_model_def the_sys_msg_def
  the_tools_def the_agent_def setup_events_def environ_cell3_def environ_cell4_def

lemma setup_none:
  assumes "snd (until_raise W [] (setup_events W)) = None"
  shows "raises W (take p (setup_events W)) (setup_events W ! p) = None \<or>
    \<not> fallible (setup_events W ! p) \<or> 8 \<le> p"
  using until_raise_None_all [OF assms, of p] by (cases "p < 8") (auto simp: setup_events_def)

lemma setup_run_ok:
  assumes n1: "raises W [GetEnv ''ACI_API_KEY'' (environ_cell3 W ''ACI_API_KEY'')] (NewToolkit (the_config W)) = None"
    and n2: "raises W [GetEnv ''ACI_API_KEY'' (environ_cell3 W ''ACI_API_KEY''), NewToolkit (the_config W)] (Connect (the_toolkit W)) = None"
    and n3: "raises W [GetEnv ''ACI_API_KEY'' (environ_cell3 W ''ACI_API_KEY''), NewToolkit (the_config W), Connect (the_toolkit W)] (GetTools (the_toolkit W)) = None"
    and n5: "raises W [GetEnv ''ACI_API_KEY'' (environ_cell3 W ''ACI_API_KEY''), NewToolkit (the_config W), Connect (the_toolkit W), GetTools (the_toolkit W), GetEnv ''GOOGLE_API_KEY'' (environ_cell4 W ''GOOGLE_API_KEY'')] (ModelCreate (the_model W)) = None"
    and n6: "raises W [GetEnv ''ACI_API_KEY'' (environ_cell3 W ''ACI_API_KEY''), NewToolkit (the_config W), Connect (the_toolkit W), GetTools (the_toolkit W), GetEnv ''GOOGLE_API_KEY'' (environ_cell4 W ''GOOGLE_API_KEY''), ModelCreate (the_model W)] (MakeAssistantMessage agent_name system_prompt) = None"
    and n7: "raises W [GetEnv ''ACI_API_KEY'' (environ_cell3 W ''ACI_API_KEY''), NewToolkit (the_config W), Connect (the_toolkit W), GetTools (the_toolkit W), GetEnv ''GOOGLE_API_KEY'' (environ_cell4 W ''GOOGLE_API_KEY''), ModelCreate (the_model W), MakeAssistantMessage agent_name system_prompt] (NewChatAgent (the_agent W)) = None"
  shows "setup_cells W = Inr (after_setup W)"
  unfolding setup_cells_def after_setup_def
  using assms by (simp add: stmt_defs obj_defs)

lemma setup_ok:
  assumes "snd (until_raise W [] (setup_events W)) = None"
  shows "setup_cells W = Inr (after_setup W)"
proof (rule setup_run_ok)
  show "raises W [GetEnv ''ACI_API_KEY'' (environ_cell3 W ''ACI_API_KEY'')] (NewToolkit (the_config W)) = None"
    using setup_none [OF assms, of 1] by (simp add: setup_events_def)
  show "raises W [GetEnv ''ACI_API_KEY'' (environ_cell3 W ''ACI_API_KEY''), NewToolkit (the_config W)] (Connect (the_toolkit W)) = None"
    using setup_none [OF assms, of 2] by (simp add: setup_events_def)
  show "raises W [GetEnv ''ACI_API_KEY'' (environ_cell3 W ''ACI_API_KEY''), NewToolkit (the_config W), Connect (the_toolkit W)] (GetTools (the_toolkit W)) = None"
    using setup_none [OF assms, of 3] by (simp add: setup_events_def)
  show "raises W [GetEnv ''ACI_API_KEY'' (environ_cell3 W ''ACI_API_KEY''), NewToolkit (the_config W), Connect (the_toolkit W), GetTools (the_toolkit W), GetEnv ''GOOGLE_API_KEY'' (environ_cell4 W ''GOOGLE_API_KEY'')] (ModelCreate (the_model W)) = None"
    using setup_none [OF assms, of 5] by (simp add: setup_events_def)
  show "raises W [GetEnv ''ACI_API_KEY'' (environ_cell3 W ''ACI_API_KEY''), NewToolkit (the_config W), Connect (the_toolkit W), GetTools (the_toolkit W), GetEnv ''GOOGLE_API_KEY'' (environ_cell4 W ''GOOGLE_API_KEY''), ModelCreate (the_model W)] (MakeAssistantMessage agent_name system_prompt) = None"
    using setup_none [OF assms, of 6] by (simp add: setup_events_def)
  show "raises W [GetEnv ''ACI_API_KEY'' (environ_cell3 W ''ACI_API_KEY''), NewToolkit (the_config W), Connect (the_toolkit W), GetTools (the_toolkit W), GetEnv ''GOOGLE_API_KEY'' (environ_cell4 W ''GOOGLE_API_KEY''), ModelCreate (the_model W), MakeAssistantMessage agent_name system_prompt] (NewChatAgent (the_agent W)) = None"
    using setup_none [OF assms, of 7] by (simp add: setup_events_def)
qed

lemma setup_fail:
  assumes "snd (until_raise W [] (setup_events W)) = Some e"
  shows "\<exists>s. setup_cells W = Inl (e, s) \<and> trace s = fst (until_raise W [] (setup_events W)) \<and>
       stdout s = console W [] (fst (until_raise W [] (setup_events W))) \<and>
       os_environ s =
         (if length (fst (until_raise W [] (setup_events W))) \<le> 3 then environ_cell3 W
          else environ_cell4 W) \<and>
       v_system_prompt s = Some system_prompt \<and> v_mcp_config s = Some (the_config W)"
proof (cases "raises W [GetEnv ''ACI_API_KEY'' (environ_cell3 W ''ACI_API_KEY'')] (NewToolkit (the_config W))")
  case (Some e1)
  then show ?thesis
    using assms  unfolding setup_cells_def by (simp add: stmt_defs obj_defs)
next
  case None
  note n1 = None
  show ?thesis
  proof (cases "raises W [GetEnv ''ACI_API_KEY'' (environ_cell3 W ''ACI_API_KEY''), NewToolkit (the_config W)] (Connect (the_toolkit W))")
    case (Some e2)
    then show ?thesis
      using assms n1 unfolding setup_cells_def by (simp add: stmt_defs obj_defs)
  next
    case None
    note n2 = None
    show ?thesis
    proof (cases "raises W [GetEnv ''ACI_API_KEY'' (environ_cell3 W ''ACI_API_KEY''), NewToolkit (the_config W), Connect (the_toolkit W)] (GetTools (the_toolkit W))")
      case (Some e3)
      then show ?thesis
        using assms n1 n2 unfolding setup_cells_def by (simp add: stmt_defs obj_defs)
    next
      case None
      note n3 = None
      show ?thesis
      proof (cases "raises W [GetEnv ''ACI_API_KEY'' (environ_cell3 W ''ACI_API_KEY''), NewToolkit (the_config W), Connect (the_toolkit W), GetTools (the_toolkit W), GetEnv ''GOOGLE_API_KEY'' (environ_cell4 W ''GOOGLE_API_KEY'')] (ModelCreate (the_model W))")
        case (Some e5)
        then show ?thesis
          using assms n1 n2 n3 unfolding setup_cells_def by (simp add: stmt_defs obj_defs)
      next
        case None
        note n5 = None
        show ?thesis
        proof (cases "raises W [GetEnv ''ACI_API_KEY'' (environ_cell3 W ''ACI_API_KEY''), NewToolkit (the_config W), Connect (the_toolkit W), GetTools (the_toolkit W), GetEnv ''GOOGLE_API_KEY'' (environ_cell4 W ''GOOGLE_API_KEY''), ModelCreate (the_model W)] (MakeAssistantMessage agent_name system_prompt)")
          case (Some e6)
          then show ?thesis
            using assms n1 n2 n3 n5 unfolding setup_cells_def by (simp add: stmt_defs obj_defs)
        next
          case None
          note n6 = None
          show ?thesis
          proof (cases "raises W [GetEnv ''ACI_API_KEY'' (environ_cell3 W ''ACI_API_KEY''), NewToolkit (the_config W), Connect (the_toolkit W), GetTools (the_toolkit W), GetEnv ''GOOGLE_API_KEY'' (environ_cell4 W ''GOOGLE_API_KEY''), ModelCreate (the_model W), MakeAssistantMessage agent_name system_prompt] (NewChatAgent (the_agent W))")
            case (Some e7)
            then show ?thesis
              using assms n1 n2 n3 n5 n6 unfolding setup_cells_def by (simp add: stmt_defs obj_defs)
          next
            case None
            note n7 = None
            show ?thesis
              using assms n1 n2 n3 n5 n6 n7 by (simp add: setup_events_def)
          qed
        qed
      qed
    qed
  qed
qed

lemma loop_body_run:
  assumes "v_agent s = Some ag"
  shows "loop_body W t s =
     (case raises W (trace s) (AStep ag t) of
        Some e \<Rightarrow>
          Inl (e, s\<lparr>trace := trace s @ [AStep ag t],
                    stdout := stdout s @ call_output W (trace s) (AStep ag t),
                    v_task := Some t\<rparr>)
      | None \<Rightarrow>
          Inr (s\<lparr>trace := trace s @
                      [AStep ag t, Print (content (msg (astep_reply W (trace s) ag t)))],
                 stdout := stdout s @ call_output W (trace s) (AStep ag t) @
                      content (msg (astep_reply W (trace s) ag t)) @ [CHR 0x0A],
                 v_task := Some t,
                 v_response := Some (astep_reply W (trace s) ag t)\<rparr>))"
  using assms
  by (simp add: loop_body_def assign_task_def await_astep_def print_response_def
      read_var_def call_then_def call_def split: option.splits)

lemma for_tasks_run:
  assumes "v_agent s = Some ag"
  shows "trace (final (for_tasks W ts s)) =
           trace s @ fst (until_raise W (trace s) (loop_events W ag (trace s) ts)) \<and>
         failure (for_tasks W ts s) =
           snd (until_raise W (trace s) (loop_events W ag (trace s) ts)) \<and>
         stdout (final (for_tasks W ts s)) =
           stdout s @
           console W (trace s) (fst (until_raise W (trace s) (loop_events W ag (trace s) ts))) \<and>
         os_environ (final (for_tasks W ts s)) = os_environ s \<and>
         v_system_prompt (final (for_tasks W ts s)) = v_system_prompt s \<and>
         v_mcp_config (final (for_tasks W ts s)) = v_mcp_config s \<and>
         v_mcp_toolkit (final (for_tasks W ts s)) = v_mcp_toolkit s"
  using assms
proof (induction ts arbitrary: s)
  case Nil
  then show ?case by (simp add: final_def failure_def)
next
  case (Cons t ts)
  show ?case
  proof (cases "raises W (trace s) (AStep ag t)")
    case (Some e)
    then show ?thesis
      using Cons.prems by (simp add: loop_body_run final_def failure_def)
  next
    case None
    let ?r = "content (msg (astep_reply W (trace s) ag t))"
    let ?s' = "s\<lparr>trace := trace s @ [AStep ag t, Print ?r],
                 stdout := stdout s @ call_output W (trace s) (AStep ag t) @ ?r @ [CHR 0x0A],
                 v_task := Some t,
                 v_response := Some (astep_reply W (trace s) ag t)\<rparr>"
    have body: "loop_body W t s = Inr ?s'"
      using Cons.prems None by (simp add: loop_body_run)
    have ag: "v_agent ?s' = Some ag"
      using Cons.prems by simp
    show ?thesis
      using Cons.IH [OF ag] None body
      by (simp split: prod.splits)
  qed
qed


lemma run_cells_split:
  "run_cells W ts =
     (case setup_cells W of Inl err \<Rightarrow> Inl err
      | Inr s \<Rightarrow>
          (case for_tasks W ts (s\<lparr>v_tasks := Some ts\<rparr>) of Inl err \<Rightarrow> Inl err
           | Inr s' \<Rightarrow> await_disconnect W s'))"
proof -
  have "run_cells W ts =
      block ([cell1 W, cell2, cell3 W, cell4 W] @ [cell5 W ts, cell6 W]) (init W)"
    by (simp add: run_cells_def)
  also have "\<dots> =
      (case setup_cells W of Inl err \<Rightarrow> Inl err | Inr s \<Rightarrow> block [cell5 W ts, cell6 W] s)"
    unfolding block_append setup_cells_def ..
  finally show ?thesis
    by (simp add: cell5_def cell6_def assign_tasks_def for_loop_def read_var_def
        split: sum.splits)
qed

text \<open>
  Every run makes the planned calls in order and stops at the first that raises; the
  variables holding the system prompt and the configuration keep their values.
\<close>

lemma run_cells_char:
  "trace (final (run_cells W ts)) = fst (until_raise W [] (planned W ts)) \<and>
   failure (run_cells W ts) = snd (until_raise W [] (planned W ts)) \<and>
   stdout (final (run_cells W ts)) = console W [] (fst (until_raise W [] (planned W ts))) \<and>
   os_environ (final (run_cells W ts)) =
     (if length (fst (until_raise W [] (planned W ts))) \<le> 3 then environ_cell3 W
      else environ_cell4 W) \<and>
   v_system_prompt (final (run_cells W ts)) = Some system_prompt \<and>
   v_mcp_config (final (run_cells W ts)) = Some (the_config W)"
proof (cases "snd (until_raise W [] (setup_events W))")
  case (Some e)
  from setup_fail [OF Some] obtain s where s: "setup_cells W = Inl (e, s)"
    "trace s = fst (until_raise W [] (setup_events W))"
    "stdout s = console W [] (fst (until_raise W [] (setup_events W)))"
    "os_environ s =
       (if length (fst (until_raise W [] (setup_events W))) \<le> 3 then environ_cell3 W
        else environ_cell4 W)"
    "v_system_prompt s = Some system_prompt"
    "v_mcp_config s = Some (the_config W)"
    by blast
  have u: "until_raise W [] (planned W ts) = (fst (until_raise W [] (setup_events W)), Some e)"
    unfolding planned_def until_raise_append_Some [OF Some]
    using Some by (cases "until_raise W [] (setup_events W)") simp
  show ?thesis
    using s by (simp add: run_cells_split u final_def failure_def)
next
  case None
  let ?s = "(after_setup W)\<lparr>v_tasks := Some ts\<rparr>"
  let ?L = "until_raise W (setup_events W) (loop_events W (the_agent W) (setup_events W) ts)"
  have su: "until_raise W [] (setup_events W) = (setup_events W, None)"
    by (rule until_raise_None_eq [OF None])
  have pl: "until_raise W [] (planned W ts) =
      (setup_events W @
         fst (until_raise W (setup_events W)
               (loop_events W (the_agent W) (setup_events W) ts @ [Disconnect (the_toolkit W)])),
       snd (until_raise W (setup_events W)
               (loop_events W (the_agent W) (setup_events W) ts @ [Disconnect (the_toolkit W)])))"
    unfolding planned_def using until_raise_append_None [OF None] by simp
  have st: "setup_cells W = Inr (after_setup W)"
    by (rule setup_ok [OF None])
  have ag: "v_agent ?s = Some (the_agent W)"
    by (simp add: after_setup_def)
  have tr: "trace ?s = setup_events W" "stdout ?s = console W [] (setup_events W)"
    "os_environ ?s = environ_cell4 W"
    "v_system_prompt ?s = Some system_prompt" "v_mcp_config ?s = Some (the_config W)"
    "v_mcp_toolkit ?s = Some (the_toolkit W)"
    by (simp_all add: after_setup_def init_def)
  have len: "length (setup_events W) = 8"
    by (simp add: setup_events_def)
  note L = for_tasks_run [OF ag, of W ts, unfolded tr]
  show ?thesis
  proof (cases "for_tasks W ts ?s")
    case (Inl err)
    obtain e s' where err: "err = (e, s')" by (cases err)
    have sndL: "snd ?L = Some e"
      using L Inl err by (simp add: failure_def)
    have u: "until_raise W [] (planned W ts) = (setup_events W @ fst ?L, Some e)"
      unfolding pl until_raise_append_Some [OF sndL] using sndL by simp
    show ?thesis
      using L Inl err len
      by (simp add: run_cells_split st u final_def failure_def console_append)
  next
    case (Inr s')
    have sndL: "snd ?L = None"
      using L Inr by (simp add: failure_def)
    have fstL: "fst ?L = loop_events W (the_agent W) (setup_events W) ts"
      by (simp add: until_raise_None_eq [OF sndL])
    have s': "trace s' = setup_events W @ loop_events W (the_agent W) (setup_events W) ts"
      "stdout s' = console W [] (setup_events W) @
         console W (setup_events W) (loop_events W (the_agent W) (setup_events W) ts)"
      "os_environ s' = environ_cell4 W" "v_system_prompt s' = Some system_prompt"
      "v_mcp_config s' = Some (the_config W)" "v_mcp_toolkit s' = Some (the_toolkit W)"
      using L Inr fstL by (simp_all add: final_def)
    have u: "until_raise W [] (planned W ts) =
        (case raises W (trace s') (Disconnect (the_toolkit W)) of
           Some e \<Rightarrow> (planned W ts, Some e) | None \<Rightarrow> (planned W ts, None))"
      unfolding pl until_raise_append_None [OF sndL] using s'(1)
      by (simp add: planned_def split: option.splits)
    have pp: "console W [] (planned W ts) =
        stdout s' @ call_output W (trace s') (Disconnect (the_toolkit W))"
      using s'(1,2) by (simp add: planned_def console_append)
    have tp: "trace s' @ [Disconnect (the_toolkit W)] = planned W ts"
      using s'(1) by (simp add: planned_def)
    have lp: "\<not> length (planned W ts) \<le> 3"
      using len by (simp add: planned_def)
    show ?thesis
      using s'(3-6) pp tp lp
      by (simp add: run_cells_split st Inr u await_disconnect_def read_var_def call_def
          final_def failure_def split: option.splits)
  qed
qed


subsection \<open>Consequences for every run\<close>

lemma run_trace_take:
  "trace (final (run_cells W ts)) =
     take (length (trace (final (run_cells W ts)))) (planned W ts)"
  using until_raise_take [of W "[]" "planned W ts"] run_cells_char [of W ts] by simp

lemma take_self_length:
  assumes "xs = take (length xs) ys"
  shows "length xs \<le> length ys"
proof -
  have "length xs = min (length xs) (length ys)"
    using arg_cong [OF assms, of length] by simp
  then show ?thesis by simp
qed

lemma take_self_nth:
  assumes "xs = take (length xs) ys" "p < length xs"
  shows "xs ! p = ys ! p"
proof -
  have "take (length xs) ys ! p = ys ! p" using assms(2) by simp
  then show ?thesis using assms(1) by simp
qed

lemma take_self_take:
  assumes "xs = take (length xs) ys" "p \<le> length xs"
  shows "take p xs = take p ys"
proof -
  have "take p (take (length xs) ys) = take p ys" using assms(2) by (simp add: min_def)
  then show ?thesis using assms(1) by simp
qed

lemma take_self_set:
  assumes "xs = take (length xs) ys"
  shows "set xs \<subseteq> set ys"
proof -
  have "set (take (length xs) ys) \<subseteq> set ys" by (rule set_take_subset)
  then show ?thesis using assms by simp
qed

lemma run_length_le: "length (trace (final (run_cells W ts))) \<le> length (planned W ts)"
  by (rule take_self_length [OF run_trace_take])

lemma run_nth:
  "p < length (trace (final (run_cells W ts))) \<Longrightarrow>
   trace (final (run_cells W ts)) ! p = planned W ts ! p"
  by (rule take_self_nth [OF run_trace_take])

lemma run_take:
  "p \<le> length (trace (final (run_cells W ts))) \<Longrightarrow>
   take p (trace (final (run_cells W ts))) = take p (planned W ts)"
  by (rule take_self_take [OF run_trace_take])

lemma run_set: "set (trace (final (run_cells W ts))) \<subseteq> set (planned W ts)"
  by (rule take_self_set [OF run_trace_take])

lemma run_not_last:
  assumes "Suc p < length (trace (final (run_cells W ts)))"
    and "fallible (trace (final (run_cells W ts)) ! p)"
  shows "raises W (take p (trace (final (run_cells W ts)))) (trace (final (run_cells W ts)) ! p) = None"
proof -
  have "raises W ([] @ take p (planned W ts)) (planned W ts ! p) = None"
    using assms run_cells_char [of W ts] run_nth [of p W ts]
    by (intro until_raise_not_last) simp_all
  then show ?thesis
    using assms(1) run_nth [of p W ts] run_take [of p W ts] by simp
qed

lemma run_failure_Some:
  assumes "failure (run_cells W ts) = Some e"
  shows "trace (final (run_cells W ts)) \<noteq> [] \<and> fallible (last (trace (final (run_cells W ts)))) \<and>
     raises W (butlast (trace (final (run_cells W ts)))) (last (trace (final (run_cells W ts)))) = Some e"
  using assms until_raise_Some [of W "[]" "planned W ts" e] run_cells_char [of W ts] by simp

lemma run_failure_None:
  assumes "failure (run_cells W ts) = None"
  shows "trace (final (run_cells W ts)) = planned W ts"
  using assms until_raise_None_eq [of W "[]" "planned W ts"] run_cells_char [of W ts] by simp

lemma run_length_ge: "2 \<le> length (trace (final (run_cells W ts)))"
proof -
  have "2 \<le> length (fst (until_raise W [] (planned W ts)))"
    by (simp add: planned_def setup_events_def split: option.splits prod.splits)
  then show ?thesis using run_cells_char [of W ts] by simp
qed

lemma run_raise_is_last:
  assumes "p < length (trace (final (run_cells W ts)))"
    and "fallible (trace (final (run_cells W ts)) ! p)"
    and "raises W (take p (trace (final (run_cells W ts)))) (trace (final (run_cells W ts)) ! p) = Some e"
  shows "Suc p = length (trace (final (run_cells W ts))) \<and> failure (run_cells W ts) = Some e"
proof -
  let ?tr = "trace (final (run_cells W ts))"
  have last: "Suc p = length ?tr"
    using assms run_not_last [of p W ts] by (cases "Suc p < length ?tr") auto
  have ne: "?tr \<noteq> []" using assms(1) by auto
  have "length ?tr - 1 = p" using last by arith
  then have bl: "butlast ?tr = take p ?tr" by (simp add: butlast_conv_take)
  have la: "last ?tr = ?tr ! p" using \<open>length ?tr - 1 = p\<close> ne by (simp add: last_conv_nth)
  show ?thesis
  proof (cases "failure (run_cells W ts)")
    case None
    have "raises W ([] @ take p (planned W ts)) (planned W ts ! p) = None"
      using None assms(1,2) run_cells_char [of W ts] run_failure_None [OF None]
      by (intro until_raise_None_all) simp_all
    then show ?thesis using assms(3) run_failure_None [OF None] by simp
  next
    case (Some e')
    from run_failure_Some [OF Some] have "raises W (butlast ?tr) (last ?tr) = Some e'" by simp
    then show ?thesis using assms(3) bl la last Some by simp
  qed
qed

lemma second_raises_run:
  assumes "raises W = second_raises e"
  shows "until_raise W [] (planned W [t1, t2, t3]) =
    (setup_events W @
       [AStep (the_agent W) t1,
        Print (content (msg (astep_reply W (setup_events W) (the_agent W) t1))),
        AStep (the_agent W) t2], Some e)"
  by (simp add: planned_def setup_events_def assms second_raises_def)

lemma astep_tasks_take_Nil: "astep_tasks xs = [] \<Longrightarrow> astep_tasks (take n xs) = []"
proof (induction xs arbitrary: n)
  case Nil
  then show ?case by simp
next
  case (Cons e es)
  show ?case
  proof (cases n)
    case 0
    then show ?thesis by simp
  next
    case (Suc m)
    then show ?thesis using Cons.prems Cons.IH [of m] by (cases e) simp_all
  qed
qed

lemma astep_tasks_setup: "astep_tasks (setup_events W) = []"
  by (simp add: setup_events_def)

lemma astep_tasks_take_planned:
  "astep_tasks (take n (planned W ts)) = take (Suc (n - 8) div 2) ts"
proof -
  have "n \<le> 8 \<or> (\<exists>j. n = 8 + j \<and> j \<le> 2 * length ts) \<or> 9 + 2 * length ts \<le> n"
    by presburger
  then consider "n \<le> 8" | j where "n = 8 + j" "j \<le> 2 * length ts"
    | "length (planned W ts) \<le> n"
    unfolding length_planned by blast
  then show ?thesis
  proof cases
    case 1
    then have "take n (planned W ts) = take n (setup_events W)"
      by (simp add: planned_def length_setup_events)
    then show ?thesis
      using 1 astep_tasks_take_Nil [OF astep_tasks_setup, of n W] by simp
  next
    case 2
    then show ?thesis
      by (simp add: planned_take_loop astep_tasks_append astep_tasks_setup astep_tasks_take_loop)
  next
    case 3
    then have "take n (planned W ts) = planned W ts" by simp
    moreover have "astep_tasks (planned W ts) = ts"
      by (simp add: planned_def astep_tasks_append astep_tasks_setup astep_tasks_loop)
    moreover have "length ts \<le> Suc (n - 8) div 2"
      using 3 unfolding length_planned by presburger
    ultimately show ?thesis by simp
  qed
qed


lemma astep_tasks_run:
  "astep_tasks (trace (final (run_cells W ts))) =
     take (Suc (length (trace (final (run_cells W ts))) - 8) div 2) ts"
  using run_trace_take [of W ts] astep_tasks_take_planned [of _ W ts] by metis

lemma disconnects_append: "disconnects (xs @ ys) = disconnects xs @ disconnects ys"
  by (induction xs rule: disconnects.induct) auto

lemma disconnects_loop: "disconnects (loop_events W ag h ts) = []"
  by (induction ts arbitrary: h) auto

lemma disconnects_planned: "disconnects (planned W ts) = [the_toolkit W]"
  by (simp add: planned_def disconnects_append disconnects_loop setup_events_def)

lemma astep_tasks_planned_butlast: "astep_tasks (butlast (planned W ts)) = ts"
  by (simp add: planned_def butlast_append astep_tasks_append astep_tasks_setup astep_tasks_loop)

lemma last_planned: "last (planned W ts) = Disconnect (the_toolkit W)"
  by (simp add: planned_def)

lemma run_astep_position:
  assumes "p < length (trace (final (run_cells W ts)))"
    and "trace (final (run_cells W ts)) ! p = AStep a t"
  shows "\<exists>i<length ts. p = 8 + 2 * i \<and> a = the_agent W \<and> t = ts ! i"
proof -
  have "p < length (planned W ts)" using assms(1) run_length_le [of W ts] by simp
  moreover have "planned W ts ! p = AStep a t" using assms run_nth [of p W ts] by simp
  ultimately show ?thesis by (rule planned_AStep_pos)
qed

lemma run_connected:
  assumes "3 < length (trace (final (run_cells W ts)))"
  shows "trace (final (run_cells W ts)) ! 2 = Connect (the_toolkit W) \<and>
     raises W (take 2 (trace (final (run_cells W ts)))) (Connect (the_toolkit W)) = None"
proof -
  have c: "trace (final (run_cells W ts)) ! 2 = Connect (the_toolkit W)"
    using assms run_nth [of 2 W ts] planned_nth_setup [of 2 W ts] by (simp add: setup_events_def)
  then show ?thesis using assms run_not_last [of 2 W ts] by simp
qed

lemma setup_failure:
  "failure (setup_cells W) = snd (until_raise W [] (setup_events W))"
proof (cases "snd (until_raise W [] (setup_events W))")
  case None
  then show ?thesis using setup_ok [OF None] by (simp add: failure_def)
next
  case (Some e)
  then show ?thesis using setup_fail [OF Some] by (auto simp: failure_def)
qed

lemma run_complete:
  assumes su: "failure (setup_cells W) = None"
    and ok: "\<forall>p a t. p < length (trace (final (run_cells W ts))) \<and>
        trace (final (run_cells W ts)) ! p = AStep a t \<longrightarrow>
        raises W (take p (trace (final (run_cells W ts)))) (AStep a t) = None"
  shows "trace (final (run_cells W ts)) = planned W ts"
proof (cases "failure (run_cells W ts)")
  case None
  then show ?thesis by (rule run_failure_None)
next
  case (Some e)
  let ?tr = "trace (final (run_cells W ts))"
  let ?n = "length ?tr"
  from run_failure_Some [OF Some]
  have l: "?tr \<noteq> []" "fallible (last ?tr)" "raises W (butlast ?tr) (last ?tr) = Some e"
    by simp_all
  have su': "snd (until_raise W [] (setup_events W)) = None"
    using su by (simp add: setup_failure)
  have le: "?n \<le> 9 + 2 * length ts"
    using run_length_le [of W ts] by (simp add: length_planned)
  have lp: "?n - 1 < length (planned W ts)" "?n - 1 < ?n"
    using l(1) le by (simp_all add: length_planned)
  have la: "last ?tr = planned W ts ! (?n - 1)"
    using l(1) lp run_nth [of "?n - 1" W ts] by (simp add: last_conv_nth)
  have bl: "butlast ?tr = take (?n - 1) ?tr" by (simp add: butlast_conv_take)
  have tk: "take (?n - 1) ?tr = take (?n - 1) (planned W ts)"
    by (intro run_take) simp
  from planned_positions [OF lp(1)]
  consider "?n - 1 < 8" | i where "i < length ts" "?n - 1 = 8 + 2 * i"
    | i where "i < length ts" "?n - 1 = 9 + 2 * i" | "?n - 1 = 8 + 2 * length ts"
    by blast
  then show ?thesis
  proof cases
    case 1
    have "take (?n - 1) (planned W ts) = take (?n - 1) (setup_events W)"
      using 1 by (simp add: planned_def length_setup_events)
    moreover have "planned W ts ! (?n - 1) = setup_events W ! (?n - 1)"
      using 1 by (rule planned_nth_setup)
    ultimately show ?thesis
      using setup_none [OF su', of "?n - 1"] 1 l(2,3) la bl tk by simp
  next
    case 2
    have "planned W ts ! (?n - 1) = AStep (the_agent W) (ts ! i)"
      unfolding 2(2) using 2(1) by (rule planned_nth_astep)
    then have "raises W (take (?n - 1) ?tr) (last ?tr) = None"
      using ok lp(2) la run_nth [of "?n - 1" W ts] by simp
    then show ?thesis using l(3) bl by simp
  next
    case 3
    have "\<exists>x. planned W ts ! (?n - 1) = Print x"
      unfolding 3(2) using 3(1) planned_nth_print [of i ts W] by simp
    then show ?thesis using l(2) la by auto
  next
    case 4
    then have "?n = 9 + 2 * length ts" using l(1) by (cases ?tr) simp_all
    then show ?thesis using run_trace_take [of W ts] by (simp add: length_planned)
  qed
qed







lemma run_event_cases:
  assumes "e \<in> set (trace (final (run_cells W ts)))"
  shows "e \<in> set (setup_events W) \<or> (\<exists>t\<in>set ts. e = AStep (the_agent W) t) \<or>
    (\<exists>x. e = Print x) \<or> e = Disconnect (the_toolkit W)"
  using assms run_set [of W ts] planned_set [of e W ts] by blast

lemma run_first_events:
  "1 < length (trace (final (run_cells W ts))) \<and>
   trace (final (run_cells W ts)) ! 0 =
     GetEnv ''ACI_API_KEY'' (environ_cell3 W ''ACI_API_KEY'') \<and>
   trace (final (run_cells W ts)) ! 1 =
     NewToolkit (mcp_config_dict (environ_cell3 W ''ACI_API_KEY''))"
proof -
  have l: "1 < length (trace (final (run_cells W ts)))"
    using run_length_ge [of W ts] by simp
  then have "0 < length (trace (final (run_cells W ts)))" by linarith
  from run_nth [OF this] run_nth [OF l] l
  show ?thesis
    using planned_nth_setup [of 0 W ts] planned_nth_setup [of 1 W ts]
    by (simp add: setup_events_def the_config_def)
qed

subsection \<open>Statements that leave the configuration and the system prompt alone\<close>

lemma block_frame:
  assumes "\<And>c s. c \<in> set cs \<Longrightarrow> f (final (c s)) = f s"
  shows "f (final (block cs s)) = f s"
  using assms
proof (induction cs arbitrary: s)
  case Nil
  then show ?case by (simp add: final_def)
next
  case (Cons c cs)
  show ?case
  proof (cases "c s")
    case (Inl err)
    then show ?thesis using Cons.prems [of c s] by simp
  next
    case (Inr s')
    have "f s' = f s" using Cons.prems [of c s] Inr by (simp add: final_def)
    moreover have "f (final (block cs s')) = f s'"
      using Cons.prems by (intro Cons.IH) simp
    ultimately show ?thesis using Inr by simp
  qed
qed

lemma for_tasks_frame:
  assumes "\<And>t s. f (final (loop_body W t s)) = f s"
  shows "f (final (for_tasks W ts s)) = f s"
proof (induction ts arbitrary: s)
  case Nil
  then show ?case by (simp add: final_def)
next
  case (Cons t ts)
  show ?case
  proof (cases "loop_body W t s")
    case (Inl err)
    then show ?thesis using assms [of t s] by simp
  next
    case (Inr s')
    have "f s' = f s" using assms [of t s] Inr by (simp add: final_def)
    then show ?thesis using Inr Cons.IH [of s'] by simp
  qed
qed

lemmas frame_defs = read_var_def call_then_def call_def getenv_def final_def

lemma import_module_frame:
  "v_mcp_config (final (import_module W m s)) = v_mcp_config s"
  "v_system_prompt (final (import_module W m s)) = v_system_prompt s"
  by (simp_all add: import_module_def final_def)

lemma new_toolkit_frame:
  "v_mcp_config (final (new_toolkit W s)) = v_mcp_config s"
  "v_system_prompt (final (new_toolkit W s)) = v_system_prompt s"
  by (simp_all add: new_toolkit_def frame_defs split: option.splits)

lemma await_connect_frame:
  "v_mcp_config (final (await_connect W s)) = v_mcp_config s"
  "v_system_prompt (final (await_connect W s)) = v_system_prompt s"
  by (simp_all add: await_connect_def frame_defs split: option.splits)

lemma assign_mcp_config_frame:
  "v_system_prompt (final (assign_mcp_config s)) = v_system_prompt s"
  by (simp add: assign_mcp_config_def frame_defs)

lemma get_tools_frame:
  "v_mcp_config (final (get_tools W s)) = v_mcp_config s"
  "v_system_prompt (final (get_tools W s)) = v_system_prompt s"
  by (simp_all add: get_tools_def frame_defs split: option.splits)

lemma create_model_frame:
  "v_mcp_config (final (create_model W s)) = v_mcp_config s"
  "v_system_prompt (final (create_model W s)) = v_system_prompt s"
  by (simp_all add: create_model_def frame_defs split: option.splits)

lemma make_sys_msg_frame:
  "v_mcp_config (final (make_sys_msg W s)) = v_mcp_config s"
  "v_system_prompt (final (make_sys_msg W s)) = v_system_prompt s"
  by (simp_all add: make_sys_msg_def frame_defs split: option.splits)

lemma new_agent_frame:
  "v_mcp_config (final (new_agent W s)) = v_mcp_config s"
  "v_system_prompt (final (new_agent W s)) = v_system_prompt s"
  by (simp_all add: new_agent_def frame_defs split: option.splits)

lemma loop_body_frame:
  "v_mcp_config (final (loop_body W t s)) = v_mcp_config s"
  "v_system_prompt (final (loop_body W t s)) = v_system_prompt s"
  by (simp_all add: loop_body_def assign_task_def await_astep_def print_response_def frame_defs
      split: option.splits)



lemma cell3_frame:
  "v_system_prompt (final (cell3 W s)) = v_system_prompt s"
  unfolding cell3_def
  by (rule block_frame)
    (auto simp: import_module_frame assign_mcp_config_frame new_toolkit_frame
      await_connect_frame)

lemma cell4_frame:
  "v_mcp_config (final (cell4 W s)) = v_mcp_config s"
  "v_system_prompt (final (cell4 W s)) = v_system_prompt s"
  unfolding cell4_def
  by (rule block_frame;
      auto simp: import_module_frame get_tools_frame create_model_frame make_sys_msg_frame
        new_agent_frame)+

lemma for_loop_frame:
  "v_mcp_config (final (for_loop W s)) = v_mcp_config s"
  "v_system_prompt (final (for_loop W s)) = v_system_prompt s"
proof -
  have a: "\<And>ts. v_mcp_config (final (for_tasks W ts s)) = v_mcp_config s"
    by (rule for_tasks_frame) (rule loop_body_frame)
  have b: "\<And>ts. v_system_prompt (final (for_tasks W ts s)) = v_system_prompt s"
    by (rule for_tasks_frame) (rule loop_body_frame)
  show "v_mcp_config (final (for_loop W s)) = v_mcp_config s"
    using a by (cases "v_tasks s") (simp_all add: for_loop_def read_var_def final_def)
  show "v_system_prompt (final (for_loop W s)) = v_system_prompt s"
    using b by (cases "v_tasks s") (simp_all add: for_loop_def read_var_def final_def)
qed

lemma assign_tasks_frame:
  "v_mcp_config (final (assign_tasks ts s)) = v_mcp_config s"
  "v_system_prompt (final (assign_tasks ts s)) = v_system_prompt s"
  by (simp_all add: assign_tasks_def final_def)

lemma cell5_frame:
  "v_mcp_config (final (cell5 W ts s)) = v_mcp_config s"
  "v_system_prompt (final (cell5 W ts s)) = v_system_prompt s"
  unfolding cell5_def
  by (rule block_frame; auto simp: assign_tasks_frame for_loop_frame)+

lemma cell6_frame:
  "v_mcp_config (final (cell6 W s)) = v_mcp_config s"
  "v_system_prompt (final (cell6 W s)) = v_system_prompt s"
  by (simp_all add: cell6_def await_disconnect_def frame_defs split: option.splits)

subsection \<open>Statements that leave the process environment alone\<close>

lemma statements_env_frame:
  "os_environ (final (assign_agent_name s)) = os_environ s"
  "os_environ (final (assign_system_prompt s)) = os_environ s"
  "os_environ (final (assign_mcp_config s)) = os_environ s"
  "os_environ (final (new_toolkit W s)) = os_environ s"
  "os_environ (final (await_connect W s)) = os_environ s"
  "os_environ (final (get_tools W s)) = os_environ s"
  "os_environ (final (create_model W s)) = os_environ s"
  "os_environ (final (make_sys_msg W s)) = os_environ s"
  "os_environ (final (new_agent W s)) = os_environ s"
  "os_environ (final (assign_tasks ts s)) = os_environ s"
  "os_environ (final (loop_body W t s)) = os_environ s"
  "os_environ (final (await_disconnect W s)) = os_environ s"
  by (simp_all add: assign_agent_name_def assign_system_prompt_def assign_mcp_config_def
      new_toolkit_def await_connect_def get_tools_def create_model_def make_sys_msg_def
      new_agent_def assign_tasks_def loop_body_def assign_task_def await_astep_def
      print_response_def await_disconnect_def frame_defs split: option.splits)

lemma cell2_env_frame: "os_environ (final (cell2 s)) = os_environ s"
  unfolding cell2_def by (rule block_frame) (auto simp: statements_env_frame)

lemma cell5_env_frame: "os_environ (final (cell5 W ts s)) = os_environ s"
proof -
  have a: "\<And>s. os_environ (final (for_loop W s)) = os_environ s"
  proof -
    fix s
    have "\<And>xs. os_environ (final (for_tasks W xs s)) = os_environ s"
      by (rule for_tasks_frame) (rule statements_env_frame)
    then show "os_environ (final (for_loop W s)) = os_environ s"
      by (cases "v_tasks s") (simp_all add: for_loop_def read_var_def final_def)
  qed
  show ?thesis
    unfolding cell5_def by (rule block_frame) (auto simp: statements_env_frame a)
qed

lemma cell6_env_frame: "os_environ (final (cell6 W s)) = os_environ s"
  by (simp add: cell6_def statements_env_frame)

lemma env_reads_append: "env_reads (xs @ ys) = env_reads xs @ env_reads ys"
  by (induction xs rule: env_reads.induct) auto

lemma env_reads_loop: "env_reads (loop_events W ag h ts) = []"
  by (induction ts arbitrary: h) auto

lemma env_reads_planned: "env_reads (planned W ts) = [''ACI_API_KEY'', ''GOOGLE_API_KEY'']"
  by (simp add: planned_def env_reads_append env_reads_loop setup_events_def)

lemma env_reads_set: "k \<in> set (env_reads es) \<Longrightarrow> \<exists>v. GetEnv k v \<in> set es"
  by (induction es rule: env_reads.induct) auto

lemma config_env_dict: "config_env (mcp_config_dict k) = [(''ACI_API_KEY'', k)]"
  by (simp add: config_env_def mcp_config_dict_def)

lemma planned_setup_event:
  assumes "p < length (planned W ts)" "planned W ts ! p = e"
    and "\<And>a t. e \<noteq> AStep a t" "\<And>x. e \<noteq> Print x" "\<And>tk. e \<noteq> Disconnect tk"
  shows "p < 8 \<and> setup_events W ! p = e"
proof -
  from planned_positions [OF assms(1)]
  consider "p < 8" | i where "i < length ts" "p = 8 + 2 * i"
    | i where "i < length ts" "p = 9 + 2 * i" | "p = 8 + 2 * length ts"
    by blast
  then show ?thesis
  proof cases
    case 1
    then show ?thesis using assms(2) planned_nth_setup [OF 1, of W ts] by simp
  next
    case 2
    then show ?thesis using assms(2,3) planned_nth_astep [of i ts W] by auto
  next
    case 3
    then show ?thesis using assms(2,4) planned_nth_print [of i ts W] by auto
  next
    case 4
    then show ?thesis using assms(2,5) planned_nth_disconnect [of W ts] by auto
  qed
qed

lemma below_eight: "p < 8 \<Longrightarrow> p = 0 \<or> p = 1 \<or> p = 2 \<or> p = 3 \<or> p = 4 \<or> p = 5 \<or> p = 6 \<or> p = (7::nat)"
  by arith

lemma run_GetEnv_pos:
  assumes "p < length (trace (final (run_cells W ts)))"
    and "trace (final (run_cells W ts)) ! p = GetEnv k v"
  shows "(p = 0 \<and> k = ''ACI_API_KEY'' \<and> v = environ_cell3 W ''ACI_API_KEY'') \<or>
    (p = 4 \<and> k = ''GOOGLE_API_KEY'' \<and> v = environ_cell4 W ''GOOGLE_API_KEY'')"
proof -
  have "p < length (planned W ts)" using assms(1) run_length_le [of W ts] by simp
  moreover have "planned W ts ! p = GetEnv k v" using assms run_nth [of p W ts] by simp
  ultimately have "p < 8 \<and> setup_events W ! p = GetEnv k v"
    by (rule planned_setup_event) simp_all
  then show ?thesis
    using below_eight [of p] by (auto simp: setup_events_def)
qed

lemma run_ModelCreate_pos:
  assumes "p < length (trace (final (run_cells W ts)))"
    and "trace (final (run_cells W ts)) ! p = ModelCreate m"
  shows "p = 5 \<and> m = the_model W"
proof -
  have "p < length (planned W ts)" using assms(1) run_length_le [of W ts] by simp
  moreover have "planned W ts ! p = ModelCreate m" using assms run_nth [of p W ts] by simp
  ultimately have "p < 8 \<and> setup_events W ! p = ModelCreate m"
    by (rule planned_setup_event) simp_all
  then show ?thesis
    using below_eight [of p] by (auto simp: setup_events_def)
qed

lemma run_setup_nth:
  assumes "p < length (trace (final (run_cells W ts)))" "p < 8"
  shows "trace (final (run_cells W ts)) ! p = setup_events W ! p"
  using run_nth [OF assms(1)] planned_nth_setup [OF assms(2), of W ts] by simp

lemma imports_idle:
  assumes "\<And>m e. import_env W m (dotenv_file W) e = e"
  shows "environ_cell3 W = environ W" "environ_cell4 W = environ W"
  by (simp_all add: environ_cell3_def environ_cell4_def assms)

lemma take_two_more:
  assumes "Suc n < length xs"
  shows "take (Suc (Suc n)) xs = take n xs @ [xs ! n, xs ! Suc n]"
  using assms by (simp add: take_Suc_conv_app_nth)



subsection \<open>Runs with the mock collaborators\<close>

lemma quiet_until_raise:
  "(\<And>h c. raises W h c = None) \<Longrightarrow> until_raise W h xs = (xs, None)"
  by (induction xs arbitrary: h) auto

lemma quiet_run:
  assumes "\<And>h c. raises W h c = None"
  shows "trace (final (run_cells W ts)) = planned W ts \<and> failure (run_cells W ts) = None \<and>
    stdout (final (run_cells W ts)) = console W [] (planned W ts)"
  using run_cells_char [of W ts] quiet_until_raise [of W "[]" "planned W ts", OF assms] by simp

lemma mock_run:
  "trace (final (run_cells mock_world ts)) = planned mock_world ts"
  "failure (run_cells mock_world ts) = None"
  "stdout (final (run_cells mock_world ts)) = printed (planned mock_world ts)"
  using quiet_run [of mock_world ts] console_quiet [of mock_world "[]" "planned mock_world ts"]
  by (simp_all add: mock_world_def)

lemma failing_run:
  "trace (final (run_cells failing_world [t1, t2, t3])) =
     setup_events failing_world @
       [AStep (the_agent failing_world) t1, Print ''1 car found'',
        AStep (the_agent failing_world) t2]"
  "failure (run_cells failing_world [t1, t2, t3]) = Some (CollabError ''agent failed'')"
proof -
  have r: "raises failing_world = second_raises (CollabError ''agent failed'')"
    by (simp add: failing_world_def)
  have a: "astep_reply failing_world = (\<lambda>h a t. car_response)"
    by (simp add: failing_world_def mock_world_def)
  show "trace (final (run_cells failing_world [t1, t2, t3])) =
     setup_events failing_world @
       [AStep (the_agent failing_world) t1, Print ''1 car found'',
        AStep (the_agent failing_world) t2]"
    using run_cells_char [of failing_world "[t1, t2, t3]"] second_raises_run [OF r, of t1 t2 t3]
    by (simp add: a car_response_def)
  show "failure (run_cells failing_world [t1, t2, t3]) = Some (CollabError ''agent failed'')"
    using run_cells_char [of failing_world "[t1, t2, t3]"] second_raises_run [OF r, of t1 t2 t3]
    by simp
qed

lemma mock_environ:
  "environ mock_world ''ACI_API_KEY'' = Some ''aci-key''"
  "environ mock_world ''GOOGLE_API_KEY'' = Some ''google-key''"
  "environ mock_world ''LINKED_ACCOUNT_OWNER_ID'' = Some ''owner-1''"
  "environ mock_world ''REPLICATE_API_TOKEN'' = Some ''r8-token''"
  "environ_cell3 mock_world = environ mock_world"
  "environ_cell4 mock_world = environ mock_world"
  by (simp_all add: mock_world_def environ_cell3_def environ_cell4_def)

lemma bare_environ:
  "environ bare_world = Map.empty"
  "raises bare_world = (\<lambda>h c. None)"
  "dotenv_file bare_world ''ACI_API_KEY'' = Some ''aci-key''"
  "dotenv_file bare_world ''REPLICATE_API_TOKEN'' = Some ''r8-token''"
  "environ_cell3 bare_world = Map.empty"
  "environ_cell4 bare_world = Map.empty"
  by (simp_all add: bare_world_def mock_world_def environ_cell3_def environ_cell4_def)

lemma bare_run:
  "trace (final (run_cells bare_world ts)) = planned bare_world ts"
  "failure (run_cells bare_world ts) = None"
  using quiet_run [of bare_world ts] by (simp_all add: bare_environ)

lemma camel_environ:
  "environ camel_world ''ACI_API_KEY'' = None"
  "dotenv_file camel_world ''ACI_API_KEY'' = Some ''aci-key''"
  "environ_cell3 camel_world ''ACI_API_KEY'' = Some ''aci-key''"
  "raises camel_world = (\<lambda>h c. None)"
  by (simp_all add: camel_world_def bare_world_def mock_world_def environ_cell3_def
      load_dotenv_def)

subsection \<open>The state when a task is issued\<close>

lemma for_tasks_append:
  "for_tasks W (xs @ ys) s =
     (case for_tasks W xs s of Inl err \<Rightarrow> Inl err | Inr s' \<Rightarrow> for_tasks W ys s')"
  by (induction xs arbitrary: s) (auto split: sum.splits)

lemma loop_events_take:
  "loop_events W ag h (take k ts) = take (2 * k) (loop_events W ag h ts)"
proof (induction ts arbitrary: k h)
  case Nil
  then show ?case by simp
next
  case (Cons t ts)
  show ?case
  proof (cases k)
    case 0
    then show ?thesis by simp
  next
    case (Suc j)
    then show ?thesis using Cons.IH [of _ j] by simp
  qed
qed

lemma until_raise_all_return:
  "(\<And>p. p < length xs \<Longrightarrow> fallible (xs ! p) \<Longrightarrow> raises W (h @ take p xs) (xs ! p) = None)
   \<Longrightarrow> until_raise W h xs = (xs, None)"
proof (induction xs arbitrary: h)
  case Nil
  then show ?case by simp
next
  case (Cons c cs)
  have c: "(if fallible c then raises W h c else None) = None"
    using Cons.prems [of 0] by simp
  have "until_raise W (h @ [c]) cs = (cs, None)"
  proof (rule Cons.IH)
    fix p
    assume "p < length cs" "fallible (cs ! p)"
    then show "raises W ((h @ [c]) @ take p cs) (cs ! p) = None"
      using Cons.prems [of "Suc p"] by simp
  qed
  then show ?case using c by simp
qed

lemma run_past_setup:
  assumes "8 < length (trace (final (run_cells W ts)))"
  shows "snd (until_raise W [] (setup_events W)) = None"
proof (cases "snd (until_raise W [] (setup_events W))")
  case None
  then show ?thesis .
next
  case (Some e)
  have "until_raise W [] (planned W ts) = until_raise W [] (setup_events W)"
    unfolding planned_def by (rule until_raise_append_Some [OF Some])
  then have "trace (final (run_cells W ts)) = fst (until_raise W [] (setup_events W))"
    using run_cells_char [of W ts] by simp
  moreover have "length (fst (until_raise W [] (setup_events W))) \<le> length (setup_events W)"
    by (rule take_self_length [OF until_raise_take])
  ultimately show ?thesis using assms by (simp add: length_setup_events)
qed

lemma run_cells_from_loop_start:
  assumes "snd (until_raise W [] (setup_events W)) = None"
  shows "run_cells W ts =
     (case for_tasks W ts (loop_start W ts) of Inl err \<Rightarrow> Inl err
      | Inr s \<Rightarrow> await_disconnect W s)"
  by (simp add: run_cells_split setup_ok [OF assms] loop_start_def)

lemma run_reaches:
  assumes k: "k \<le> length ts"
    and n: "8 + 2 * k < length (trace (final (run_cells W ts)))"
  shows "\<exists>s. for_tasks W (take k ts) (loop_start W ts) = Inr s \<and>
     trace s = take (8 + 2 * k) (trace (final (run_cells W ts))) \<and>
     stdout s = console W [] (take (8 + 2 * k) (trace (final (run_cells W ts)))) \<and>
     run_cells W ts =
       (case for_tasks W (drop k ts) s of Inl err \<Rightarrow> Inl err
        | Inr s' \<Rightarrow> await_disconnect W s')"
proof -
  let ?tr = "trace (final (run_cells W ts))"
  let ?E = "setup_events W"
  let ?L = "loop_events W (the_agent W) ?E ts"
  let ?xs = "take (2 * k) ?L"
  let ?F = "for_tasks W (take k ts) (loop_start W ts)"
  have su: "snd (until_raise W [] ?E) = None"
    using n by (intro run_past_setup [of W ts]) simp
  have ag: "v_agent (loop_start W ts) = Some (the_agent W)"
    by (simp add: loop_start_def after_setup_def)
  have st: "trace (loop_start W ts) = ?E" "stdout (loop_start W ts) = console W [] ?E"
    by (simp_all add: loop_start_def after_setup_def)
  have tk: "take (8 + 2 * k) ?tr = ?E @ ?xs"
    using n k run_take [of "8 + 2 * k" W ts] planned_take_loop [of "2 * k" ts W] by simp
  have q: "until_raise W ?E ?xs = (?xs, None)"
  proof (rule until_raise_all_return)
    fix p
    assume p: "p < length ?xs" "fallible (?xs ! p)"
    then have p2: "p < 2 * k" "p < 2 * length ts" using k by (simp_all add: length_loop_events)
    have a: "?tr ! (8 + p) = ?xs ! p"
      using n p2 run_nth [of "8 + p" W ts] planned_nth_loop [of p ts W] by simp
    have b: "take (8 + p) ?tr = ?E @ take p ?xs"
      using n p2 run_take [of "8 + p" W ts] planned_take_loop [of p ts W]
      by (simp add: min_def)
    have "raises W (take (8 + p) ?tr) (?tr ! (8 + p)) = None"
      using n p2 p(2) a by (intro run_not_last) simp_all
    then show "raises W (?E @ take p ?xs) (?xs ! p) = None"
      using a b by simp
  qed
  note R = for_tasks_run [OF ag, of W "take k ts", unfolded st loop_events_take q]
  from R have f: "failure ?F = None" by simp
  then obtain s where s: "?F = Inr s"
    by (cases ?F) (auto simp: failure_def)
  have "for_tasks W ts (loop_start W ts) = for_tasks W (take k ts @ drop k ts) (loop_start W ts)"
    by simp
  also have "\<dots> = for_tasks W (drop k ts) s"
    unfolding for_tasks_append s by simp
  finally have c: "run_cells W ts =
       (case for_tasks W (drop k ts) s of Inl err \<Rightarrow> Inl err
        | Inr s' \<Rightarrow> await_disconnect W s')"
    using run_cells_from_loop_start [OF su, of ts] by simp
  have "trace s = ?E @ ?xs" "stdout s = console W [] ?E @ console W ?E ?xs"
    using R s by (simp_all add: final_def)
  then show ?thesis
    using s c tk by (simp add: console_append)
qed

subsection \<open>More runs with the mock collaborators\<close>

lemma mock_quiet:
  "call_output mock_world = (\<lambda>h c. [])"
  "astep_reply mock_world = (\<lambda>h a t. car_response)"
  "raises mock_world = (\<lambda>h c. None)"
  by (simp_all add: mock_world_def)


lemma offline_run:
  "trace (final (run_cells offline_world ts)) =
     [GetEnv ''ACI_API_KEY'' (Some ''aci-key''), NewToolkit (the_config offline_world),
      Connect (the_toolkit offline_world)]"
  "failure (run_cells offline_world ts) = Some (CollabError ''connection refused'')"
proof -
  have e: "environ_cell3 offline_world ''ACI_API_KEY'' = Some ''aci-key''"
    by (simp add: offline_world_def mock_world_def environ_cell3_def)
  have r: "raises offline_world = connect_raises"
    by (simp add: offline_world_def)
  have u: "until_raise offline_world [] (planned offline_world ts) =
      ([GetEnv ''ACI_API_KEY'' (Some ''aci-key''), NewToolkit (the_config offline_world),
        Connect (the_toolkit offline_world)], Some (CollabError ''connection refused''))"
    by (simp add: planned_def setup_events_def r connect_raises_def e)
  show "trace (final (run_cells offline_world ts)) =
     [GetEnv ''ACI_API_KEY'' (Some ''aci-key''), NewToolkit (the_config offline_world),
      Connect (the_toolkit offline_world)]"
    using run_cells_char [of offline_world ts] u by simp
  show "failure (run_cells offline_world ts) = Some (CollabError ''connection refused'')"
    using run_cells_char [of offline_world ts] u by simp
qed

lemma mock_setup: "failure (setup_cells mock_world) = None"
  by (simp add: setup_failure quiet_until_raise mock_world_def)

section \<open>The claims\<close>

subsection \<open>Secrets read from the environment\<close>

text \<open>
  Claim C1, as the code has it. Two secrets are obtained by \<^verbatim>\<open>os.getenv\<close>, each from
  the process environment as the imports before the read left it. The first event of
  every run is the read of \<^verbatim>\<open>ACI_API_KEY\<close>, and the value read is the one bound to
  that key in the \<^verbatim>\<open>env\<close> mapping of the configuration passed to \<^verbatim>\<open>MCPToolkit\<close>, the
  second event. There is no other read but that of \<^verbatim>\<open>GOOGLE_API_KEY\<close>, which is event 4:
  it is made only after \<^verbatim>\<open>connect\<close>, event 2, has returned. The model is created
  nowhere but at event 5, right after that read and with the value read as its
  \<^verbatim>\<open>api_key\<close>; a run in which nothing raises creates it. The variable
  \<^verbatim>\<open>REPLICATE_API_TOKEN\<close> is never read.
\<close>

theorem secrets_read:
  "1 < length (trace (final (run_cells W ts))) \<and>
   trace (final (run_cells W ts)) ! 0 =
     GetEnv ''ACI_API_KEY'' (environ_cell3 W ''ACI_API_KEY'') \<and>
   trace (final (run_cells W ts)) ! 1 =
     NewToolkit (mcp_config_dict (environ_cell3 W ''ACI_API_KEY'')) \<and>
   config_env (mcp_config_dict (environ_cell3 W ''ACI_API_KEY'')) =
     [(''ACI_API_KEY'', environ_cell3 W ''ACI_API_KEY'')] \<and>
   (\<forall>p k v. p < length (trace (final (run_cells W ts))) \<and>
        trace (final (run_cells W ts)) ! p = GetEnv k v \<longrightarrow>
      (p = 0 \<and> k = ''ACI_API_KEY'' \<and> v = environ_cell3 W ''ACI_API_KEY'') \<or>
      (p = 4 \<and> k = ''GOOGLE_API_KEY'' \<and> v = environ_cell4 W ''GOOGLE_API_KEY'' \<and>
       trace (final (run_cells W ts)) ! 2 = Connect (the_toolkit W) \<and>
       raises W (take 2 (trace (final (run_cells W ts)))) (Connect (the_toolkit W)) = None)) \<and>
   (\<forall>p m. p < length (trace (final (run_cells W ts))) \<and>
        trace (final (run_cells W ts)) ! p = ModelCreate m \<longrightarrow>
      p = 5 \<and> api_key m = environ_cell4 W ''GOOGLE_API_KEY'' \<and>
      trace (final (run_cells W ts)) ! 4 =
        GetEnv ''GOOGLE_API_KEY'' (environ_cell4 W ''GOOGLE_API_KEY'')) \<and>
   (failure (run_cells W ts) = None \<longrightarrow>
      5 < length (trace (final (run_cells W ts))) \<and>
      trace (final (run_cells W ts)) ! 5 =
        ModelCreate (gemini_model (environ_cell4 W ''GOOGLE_API_KEY''))) \<and>
   ''REPLICATE_API_TOKEN'' \<notin> set (env_reads (trace (final (run_cells W ts))))"
proof (intro conjI allI impI)
  show "1 < length (trace (final (run_cells W ts)))"
    and "trace (final (run_cells W ts)) ! 0 =
      GetEnv ''ACI_API_KEY'' (environ_cell3 W ''ACI_API_KEY'')"
    and "trace (final (run_cells W ts)) ! 1 =
      NewToolkit (mcp_config_dict (environ_cell3 W ''ACI_API_KEY''))"
    using run_first_events [of W ts] by simp_all
  show "config_env (mcp_config_dict (environ_cell3 W ''ACI_API_KEY'')) =
     [(''ACI_API_KEY'', environ_cell3 W ''ACI_API_KEY'')]"
    by (rule config_env_dict)
next
  fix p k v
  let ?tr = "trace (final (run_cells W ts))"
  assume "p < length ?tr \<and> ?tr ! p = GetEnv k v"
  then have a: "p < length ?tr" "?tr ! p = GetEnv k v" by simp_all
  from run_GetEnv_pos [OF a]
  consider "p = 0" "k = ''ACI_API_KEY''" "v = environ_cell3 W ''ACI_API_KEY''"
    | "p = 4" "k = ''GOOGLE_API_KEY''" "v = environ_cell4 W ''GOOGLE_API_KEY''"
    by blast
  then show "(p = 0 \<and> k = ''ACI_API_KEY'' \<and> v = environ_cell3 W ''ACI_API_KEY'') \<or>
      (p = 4 \<and> k = ''GOOGLE_API_KEY'' \<and> v = environ_cell4 W ''GOOGLE_API_KEY'' \<and>
       ?tr ! 2 = Connect (the_toolkit W) \<and>
       raises W (take 2 ?tr) (Connect (the_toolkit W)) = None)"
  proof cases
    case 1
    then show ?thesis by simp
  next
    case 2
    then have "3 < length ?tr" using a(1) by simp
    from run_connected [OF this] 2 show ?thesis by simp
  qed
next
  fix p m
  let ?tr = "trace (final (run_cells W ts))"
  assume "p < length ?tr \<and> ?tr ! p = ModelCreate m"
  then have a: "p < length ?tr" "?tr ! p = ModelCreate m" by simp_all
  from run_ModelCreate_pos [OF a] have pm: "p = 5" "m = the_model W" by simp_all
  then show "p = 5" by simp
  show "api_key m = environ_cell4 W ''GOOGLE_API_KEY''"
    using pm by (simp add: the_model_def gemini_model_def)
  have "4 < length ?tr" using a(1) pm by simp
  from run_setup_nth [OF this]
  show "?tr ! 4 = GetEnv ''GOOGLE_API_KEY'' (environ_cell4 W ''GOOGLE_API_KEY'')"
    by (simp add: setup_events_def)
next
  assume "failure (run_cells W ts) = None"
  from run_failure_None [OF this]
  show "5 < length (trace (final (run_cells W ts)))"
    and "trace (final (run_cells W ts)) ! 5 =
        ModelCreate (gemini_model (environ_cell4 W ''GOOGLE_API_KEY''))"
    by (simp_all add: planned_def setup_events_def the_model_def)
next
  show "''REPLICATE_API_TOKEN'' \<notin> set (env_reads (trace (final (run_cells W ts))))"
  proof
    assume "''REPLICATE_API_TOKEN'' \<in> set (env_reads (trace (final (run_cells W ts))))"
    from env_reads_set [OF this] obtain v where
      "GetEnv ''REPLICATE_API_TOKEN'' v \<in> set (trace (final (run_cells W ts)))" by blast
    then show False
      using run_event_cases [of "GetEnv ''REPLICATE_API_TOKEN'' v" W ts]
      by (auto simp: setup_events_def)
  qed
qed

theorem secrets_read_witness:
  "failure (notebook mock_world) = None \<and>
   trace (final (notebook mock_world)) ! 0 = GetEnv ''ACI_API_KEY'' (Some ''aci-key'') \<and>
   trace (final (notebook mock_world)) ! 2 = Connect (the_toolkit mock_world) \<and>
   raises mock_world (take 2 (trace (final (notebook mock_world))))
     (Connect (the_toolkit mock_world)) = None \<and>
   trace (final (notebook mock_world)) ! 4 = GetEnv ''GOOGLE_API_KEY'' (Some ''google-key'') \<and>
   trace (final (notebook mock_world)) ! 5 = ModelCreate (gemini_model (Some ''google-key'')) \<and>
   api_key (gemini_model (Some ''google-key'')) = Some ''google-key''"
proof -
  let ?tr = "trace (final (run_cells mock_world tasks))"
  have f: "failure (run_cells mock_world tasks) = None" by (rule mock_run)
  note t = secrets_read [of mock_world tasks]
  from t have a: "?tr ! 0 = GetEnv ''ACI_API_KEY'' (environ_cell3 mock_world ''ACI_API_KEY'')"
    by blast
  from t f have m: "5 < length ?tr"
    "?tr ! 5 = ModelCreate (gemini_model (environ_cell4 mock_world ''GOOGLE_API_KEY''))"
    by blast+
  with t have g: "?tr ! 4 =
      GetEnv ''GOOGLE_API_KEY'' (environ_cell4 mock_world ''GOOGLE_API_KEY'')"
    "api_key (gemini_model (environ_cell4 mock_world ''GOOGLE_API_KEY'')) =
      environ_cell4 mock_world ''GOOGLE_API_KEY''"
    by blast+
  have "4 < length ?tr" using m(1) by simp
  with t g(1) have c: "?tr ! 2 = Connect (the_toolkit mock_world) \<and>
      raises mock_world (take 2 ?tr) (Connect (the_toolkit mock_world)) = None"
    by blast
  show ?thesis
    unfolding notebook_def using f a m g c by (simp add: mock_environ)
qed

text \<open>
  As the claim is worded (four secrets, each obtained by a read of the environment)
  it fails: in a complete run with all four variables set, the names read are
  \<^verbatim>\<open>ACI_API_KEY\<close> and \<^verbatim>\<open>GOOGLE_API_KEY\<close> only.
\<close>

theorem secrets_read_counterexample:
  "environ mock_world ''REPLICATE_API_TOKEN'' = Some ''r8-token'' \<and>
   failure (notebook mock_world) = None \<and>
   env_reads (trace (final (notebook mock_world))) = [''ACI_API_KEY'', ''GOOGLE_API_KEY''] \<and>
   ''REPLICATE_API_TOKEN'' \<notin> set (env_reads (trace (final (notebook mock_world))))"
  by (simp add: notebook_def mock_run env_reads_planned mock_environ)

subsection \<open>Agent invocations\<close>

text \<open>
  Claim C2, as the code has it. For every task list: when no call of the run raises,
  the tasks passed to the agent are exactly the tasks of the list, in list order; in
  every run they are the first tasks of the list in list order (the run stops at the
  first call that raises). Every agent invocation comes after a \<^verbatim>\<open>connect\<close> call that
  returned, and before any \<^verbatim>\<open>disconnect\<close> call.
\<close>

theorem agent_invocations:
  "(failure (run_cells W ts) = None \<longrightarrow> astep_tasks (trace (final (run_cells W ts))) = ts) \<and>
   astep_tasks (trace (final (run_cells W ts))) =
     take (length (astep_tasks (trace (final (run_cells W ts))))) ts \<and>
   (\<forall>p a t. p < length (trace (final (run_cells W ts))) \<and>
        trace (final (run_cells W ts)) ! p = AStep a t \<longrightarrow>
      (\<exists>q<p. \<exists>tk. trace (final (run_cells W ts)) ! q = Connect tk \<and>
          raises W (take q (trace (final (run_cells W ts)))) (Connect tk) = None) \<and>
      (\<forall>q tk. q < length (trace (final (run_cells W ts))) \<and>
          trace (final (run_cells W ts)) ! q = Disconnect tk \<longrightarrow> p < q))"
proof (intro conjI allI impI)
  assume "failure (run_cells W ts) = None"
  from run_failure_None [OF this]
  show "astep_tasks (trace (final (run_cells W ts))) = ts"
    by (simp add: planned_def astep_tasks_append astep_tasks_setup astep_tasks_loop)
next
  show "astep_tasks (trace (final (run_cells W ts))) =
     take (length (astep_tasks (trace (final (run_cells W ts))))) ts"
    by (subst (2) astep_tasks_run, subst astep_tasks_run) (simp add: min_def)
next
  fix p a t
  assume a: "p < length (trace (final (run_cells W ts))) \<and>
        trace (final (run_cells W ts)) ! p = AStep a t"
  from run_astep_position [of p W ts a t] a
  obtain i where i: "i < length ts" "p = 8 + 2 * i" by blast
  have "3 < length (trace (final (run_cells W ts)))" using a i by simp
  from run_connected [OF this] i
  show "\<exists>q<p. \<exists>tk. trace (final (run_cells W ts)) ! q = Connect tk \<and>
          raises W (take q (trace (final (run_cells W ts)))) (Connect tk) = None"
    by (intro exI [of _ 2] exI [of _ "the_toolkit W"]) simp
next
  fix p a t q tk
  assume a: "p < length (trace (final (run_cells W ts))) \<and>
        trace (final (run_cells W ts)) ! p = AStep a t"
    and d: "q < length (trace (final (run_cells W ts))) \<and>
          trace (final (run_cells W ts)) ! q = Disconnect tk"
  from run_astep_position [of p W ts a t] a
  obtain i where i: "i < length ts" "p = 8 + 2 * i" by blast
  have "q < length (planned W ts)" using d run_length_le [of W ts] by simp
  moreover have "planned W ts ! q = Disconnect tk" using d run_nth [of q W ts] by simp
  ultimately have "q = 8 + 2 * length ts" using planned_Disconnect_pos by blast
  then show "p < q" using i by simp
qed

text \<open>
  As the claim is worded (exactly \<open>N\<close> invocations for every task list) it fails when a
  collaborator raises: with the notebook's three tasks and an agent that raises on
  its second invocation, the agent is invoked twice.
\<close>

theorem agent_invocations_witness:
  "failure (run_cells mock_world [''a'', ''b'']) = None \<and>
   astep_tasks (trace (final (run_cells mock_world [''a'', ''b'']))) = [''a'', ''b''] \<and>
   8 < length (trace (final (run_cells mock_world [''a'', ''b'']))) \<and>
   trace (final (run_cells mock_world [''a'', ''b''])) ! 8 = AStep (the_agent mock_world) ''a'' \<and>
   (\<exists>q<8. \<exists>tk. trace (final (run_cells mock_world [''a'', ''b''])) ! q = Connect tk \<and>
      raises mock_world (take q (trace (final (run_cells mock_world [''a'', ''b''])))) (Connect tk) = None)"
proof -
  have f: "failure (run_cells mock_world [''a'', ''b'']) = None"
    by (rule mock_run)
  have p: "8 < length (trace (final (run_cells mock_world [''a'', ''b''])))"
    "trace (final (run_cells mock_world [''a'', ''b''])) ! 8 = AStep (the_agent mock_world) ''a''"
    by (simp_all add: mock_run planned_def setup_events_def)
  show ?thesis
    using f p agent_invocations [of mock_world "[''a'', ''b'']"] by blast
qed

theorem agent_invocations_counterexample:
  "length tasks = 3 \<and>
   failure (notebook failing_world) = Some (CollabError ''agent failed'') \<and>
   astep_tasks (trace (final (notebook failing_world))) = [task_1, task_2]"
  by (simp add: notebook_def tasks_def failing_run setup_events_def)


subsection \<open>Failures\<close>

text \<open>
  Claim C3. A collaborator call that raises ends the run at that call, and the run
  fails with that exception: if the run fails, the exception is the one raised by the
  last call of the trace; and a call in the trace that raises is the last event. In
  particular, when the agent raises on the second of three tasks, the run fails with
  that exception, only the first two tasks were passed to the agent, and
  \<^verbatim>\<open>disconnect\<close> was not called.
\<close>

theorem failure_propagates:
  "(\<forall>e. failure (run_cells W ts) = Some e \<longrightarrow>
      trace (final (run_cells W ts)) \<noteq> [] \<and>
      fallible (last (trace (final (run_cells W ts)))) \<and>
      raises W (butlast (trace (final (run_cells W ts))))
        (last (trace (final (run_cells W ts)))) = Some e) \<and>
   (\<forall>p e. p < length (trace (final (run_cells W ts))) \<and>
      fallible (trace (final (run_cells W ts)) ! p) \<and>
      raises W (take p (trace (final (run_cells W ts))))
        (trace (final (run_cells W ts)) ! p) = Some e \<longrightarrow>
      Suc p = length (trace (final (run_cells W ts))) \<and> failure (run_cells W ts) = Some e) \<and>
   (raises W = second_raises e2 \<longrightarrow>
      failure (run_cells W [t1, t2, t3]) = Some e2 \<and>
      astep_tasks (trace (final (run_cells W [t1, t2, t3]))) = [t1, t2] \<and>
      disconnects (trace (final (run_cells W [t1, t2, t3]))) = [])"
proof (intro conjI allI impI)
  fix e assume "failure (run_cells W ts) = Some e"
  from run_failure_Some [OF this]
  show "trace (final (run_cells W ts)) \<noteq> []"
    and "fallible (last (trace (final (run_cells W ts))))"
    and "raises W (butlast (trace (final (run_cells W ts))))
        (last (trace (final (run_cells W ts)))) = Some e"
    by simp_all
next
  fix p e
  assume a: "p < length (trace (final (run_cells W ts))) \<and>
      fallible (trace (final (run_cells W ts)) ! p) \<and>
      raises W (take p (trace (final (run_cells W ts))))
        (trace (final (run_cells W ts)) ! p) = Some e"
  then show "Suc p = length (trace (final (run_cells W ts)))"
    and "failure (run_cells W ts) = Some e"
    using run_raise_is_last [of p W ts e] by simp_all
next
  assume r: "raises W = second_raises e2"
  note u = second_raises_run [OF r, of t1 t2 t3]
  show "failure (run_cells W [t1, t2, t3]) = Some e2"
    using run_cells_char [of W "[t1, t2, t3]"] u by simp
  show "astep_tasks (trace (final (run_cells W [t1, t2, t3]))) = [t1, t2]"
    using run_cells_char [of W "[t1, t2, t3]"] u by (simp add: setup_events_def)
  show "disconnects (trace (final (run_cells W [t1, t2, t3]))) = []"
    using run_cells_char [of W "[t1, t2, t3]"] u by (simp add: setup_events_def)
qed

theorem failure_propagates_witness:
  "raises failing_world = second_raises (CollabError ''agent failed'') \<and>
   failure (run_cells failing_world [''a'', ''b'', ''c'']) = Some (CollabError ''agent failed'') \<and>
   astep_tasks (trace (final (run_cells failing_world [''a'', ''b'', ''c'']))) = [''a'', ''b''] \<and>
   disconnects (trace (final (run_cells failing_world [''a'', ''b'', ''c'']))) = [] \<and>
   fallible (last (trace (final (run_cells failing_world [''a'', ''b'', ''c''])))) \<and>
   raises failing_world (butlast (trace (final (run_cells failing_world [''a'', ''b'', ''c'']))))
     (last (trace (final (run_cells failing_world [''a'', ''b'', ''c''])))) =
     Some (CollabError ''agent failed'')"
proof -
  have r: "raises failing_world = second_raises (CollabError ''agent failed'')"
    by (simp add: failing_world_def)
  show ?thesis
    using r failure_propagates [of failing_world "[''a'', ''b'', ''c'']"
        "CollabError ''agent failed''" "''a''" "''b''" "''c''"]
    by simp
qed

subsection \<open>Teardown\<close>

text \<open>
  Claim C4, as the code has it. In every run in which the set-up cells complete and
  no task invocation raises, every task of the list is passed to the agent and
  \<^verbatim>\<open>disconnect\<close> is called exactly once, as the last event of the run, after all the
  task invocations. This holds for every task list, the empty one too.
\<close>

theorem teardown_once:
  assumes "failure (setup_cells W) = None"
    and "\<forall>p a t. p < length (trace (final (run_cells W ts))) \<and>
        trace (final (run_cells W ts)) ! p = AStep a t \<longrightarrow>
        raises W (take p (trace (final (run_cells W ts)))) (AStep a t) = None"
  shows "length (disconnects (trace (final (run_cells W ts)))) = 1 \<and>
    last (trace (final (run_cells W ts))) = Disconnect (the_toolkit W) \<and>
    astep_tasks (butlast (trace (final (run_cells W ts)))) = ts"
  unfolding run_complete [OF assms]
  by (simp add: disconnects_planned last_planned astep_tasks_planned_butlast)

theorem teardown_once_witness:
  "failure (setup_cells mock_world) = None \<and>
   length (disconnects (trace (final (run_cells mock_world tasks)))) = 1 \<and>
   last (trace (final (run_cells mock_world tasks))) = Disconnect (the_toolkit mock_world) \<and>
   astep_tasks (butlast (trace (final (run_cells mock_world tasks)))) = tasks \<and>
   length (disconnects (trace (final (run_cells mock_world [])))) = 1"
proof -
  have h1: "failure (setup_cells mock_world) = None" by (rule mock_setup)
  have h2: "\<forall>p a t. p < length (trace (final (run_cells mock_world ts))) \<and>
        trace (final (run_cells mock_world ts)) ! p = AStep a t \<longrightarrow>
        raises mock_world (take p (trace (final (run_cells mock_world ts)))) (AStep a t) = None"
    for ts
    by (simp add: mock_world_def)
  show ?thesis
    using h1 teardown_once [OF h1 h2, of tasks] teardown_once [OF h1 h2, of "[]"] by simp
qed

text \<open>
  As the claim is worded (every run in which all task invocations succeed) it fails
  when the set-up fails: if \<^verbatim>\<open>connect\<close> raises, no task invocation is made, so none
  fails, and \<^verbatim>\<open>disconnect\<close> is never called. With the empty task list every task of
  the list has then been invoked; with the three tasks of the notebook none has.
\<close>

theorem teardown_once_counterexample:
  "astep_tasks (trace (final (run_cells offline_world []))) = [] \<and>
   disconnects (trace (final (run_cells offline_world []))) = [] \<and>
   failure (run_cells offline_world []) = Some (CollabError ''connection refused'') \<and>
   last (trace (final (run_cells offline_world []))) = Connect (the_toolkit offline_world) \<and>
   astep_tasks (trace (final (notebook offline_world))) = [] \<and>
   disconnects (trace (final (notebook offline_world))) = []"
  by (simp add: notebook_def offline_run)

subsection \<open>Order of the task loop\<close>

text \<open>
  Claim C5. The set-up cells emit eight events, so the invocation of task \<open>i\<close> is event
  \<open>8 + 2 * i\<close> of the trace. For consecutive tasks \<open>i\<close> and \<open>i + 1\<close>: whenever task
  \<open>i + 1\<close> is issued, the three events ending there are the invocation of task \<open>i\<close>,
  which returned, the \<^verbatim>\<open>print\<close> of the content of its response, and the invocation of
  task \<open>i + 1\<close>. The loop has by then gone through the first \<open>i + 1\<close> tasks and reached
  a state whose standard output ends with what the agent's call wrote, the content
  of the response to task \<open>i\<close> and a line feed; the rest of the run, starting with
  task \<open>i + 1\<close>, goes on from that state. Agent invocations occur at no other place,
  so no two of them overlap, and standard output at the end is what the events of
  the trace wrote, in their order.
\<close>

theorem tasks_sequential:
  "(\<forall>i. Suc i < length ts \<and> 10 + 2 * i < length (trace (final (run_cells W ts))) \<longrightarrow>
      trace (final (run_cells W ts)) ! (8 + 2 * i) = AStep (the_agent W) (ts ! i) \<and>
      raises W (take (8 + 2 * i) (trace (final (run_cells W ts))))
        (AStep (the_agent W) (ts ! i)) = None \<and>
      trace (final (run_cells W ts)) ! (9 + 2 * i) =
        Print (content (msg (astep_reply W (take (8 + 2 * i) (trace (final (run_cells W ts))))
          (the_agent W) (ts ! i)))) \<and>
      trace (final (run_cells W ts)) ! (10 + 2 * i) = AStep (the_agent W) (ts ! Suc i) \<and>
      (\<exists>s. for_tasks W (take (Suc i) ts) (loop_start W ts) = Inr s \<and>
         trace s = take (10 + 2 * i) (trace (final (run_cells W ts))) \<and>
         stdout s =
           console W [] (take (8 + 2 * i) (trace (final (run_cells W ts)))) @
           call_output W (take (8 + 2 * i) (trace (final (run_cells W ts))))
             (AStep (the_agent W) (ts ! i)) @
           content (msg (astep_reply W (take (8 + 2 * i) (trace (final (run_cells W ts))))
             (the_agent W) (ts ! i))) @ [CHR 0x0A] \<and>
         run_cells W ts =
           (case for_tasks W (drop (Suc i) ts) s of Inl err \<Rightarrow> Inl err
            | Inr s' \<Rightarrow> await_disconnect W s'))) \<and>
   (\<forall>p a t. p < length (trace (final (run_cells W ts))) \<and>
        trace (final (run_cells W ts)) ! p = AStep a t \<longrightarrow>
      (\<exists>i<length ts. p = 8 + 2 * i \<and> a = the_agent W \<and> t = ts ! i)) \<and>
   stdout (final (run_cells W ts)) = console W [] (trace (final (run_cells W ts)))"
proof (intro conjI allI impI)
  fix i
  let ?tr = "trace (final (run_cells W ts))"
  let ?c = "content (msg (astep_reply W (take (8 + 2 * i) ?tr) (the_agent W) (ts ! i)))"
  assume a: "Suc i < length ts \<and> 10 + 2 * i < length ?tr"
  then have i: "i < length ts" "Suc i < length ts" by simp_all
  have n0: "?tr ! (8 + 2 * i) = AStep (the_agent W) (ts ! i)"
    using a run_nth [of "8 + 2 * i" W ts] planned_nth_astep [OF i(1), of W] by simp
  then show "?tr ! (8 + 2 * i) = AStep (the_agent W) (ts ! i)" .
  show "raises W (take (8 + 2 * i) ?tr) (AStep (the_agent W) (ts ! i)) = None"
    using a n0 run_not_last [of "8 + 2 * i" W ts] by simp
  show n1: "?tr ! (9 + 2 * i) = Print ?c"
    using a run_nth [of "9 + 2 * i" W ts] planned_nth_print [OF i(1), of W]
      run_take [of "8 + 2 * i" W ts] by simp
  show "?tr ! (10 + 2 * i) = AStep (the_agent W) (ts ! Suc i)"
    using a run_nth [of "10 + 2 * i" W ts] planned_nth_astep [OF i(2), of W] by simp
  have k: "Suc i \<le> length ts" "8 + 2 * Suc i < length ?tr" using a by simp_all
  from run_reaches [OF k] obtain s where s:
    "for_tasks W (take (Suc i) ts) (loop_start W ts) = Inr s"
    "trace s = take (8 + 2 * Suc i) ?tr"
    "stdout s = console W [] (take (8 + 2 * Suc i) ?tr)"
    "run_cells W ts =
       (case for_tasks W (drop (Suc i) ts) s of Inl err \<Rightarrow> Inl err
        | Inr s' \<Rightarrow> await_disconnect W s')"
    by blast
  have "take (Suc (Suc (8 + 2 * i))) ?tr =
      take (8 + 2 * i) ?tr @ [?tr ! (8 + 2 * i), ?tr ! Suc (8 + 2 * i)]"
    using a by (intro take_two_more) simp
  moreover have "?tr ! Suc (8 + 2 * i) = Print ?c" using n1 by simp
  moreover have "length (take (8 + 2 * i) ?tr) = 8 + 2 * i" using a by simp
  ultimately have "console W [] (take (8 + 2 * Suc i) ?tr) =
      console W [] (take (8 + 2 * i) ?tr) @
      call_output W (take (8 + 2 * i) ?tr) (AStep (the_agent W) (ts ! i)) @ ?c @ [CHR 0x0A]"
    using n0 by (simp add: console_append)
  then show "\<exists>s. for_tasks W (take (Suc i) ts) (loop_start W ts) = Inr s \<and>
         trace s = take (10 + 2 * i) ?tr \<and>
         stdout s =
           console W [] (take (8 + 2 * i) ?tr) @
           call_output W (take (8 + 2 * i) ?tr) (AStep (the_agent W) (ts ! i)) @
           ?c @ [CHR 0x0A] \<and>
         run_cells W ts =
           (case for_tasks W (drop (Suc i) ts) s of Inl err \<Rightarrow> Inl err
            | Inr s' \<Rightarrow> await_disconnect W s')"
    using s by (intro exI [of _ s]) simp
next
  fix p a t
  assume "p < length (trace (final (run_cells W ts))) \<and>
        trace (final (run_cells W ts)) ! p = AStep a t"
  then show "\<exists>i<length ts. p = 8 + 2 * i \<and> a = the_agent W \<and> t = ts ! i"
    using run_astep_position [of p W ts a t] by simp
next
  show "stdout (final (run_cells W ts)) = console W [] (trace (final (run_cells W ts)))"
    using run_cells_char [of W ts] by simp
qed

theorem tasks_sequential_witness:
  "Suc 0 < length [''a'', ''b''] \<and>
   10 + 2 * 0 < length (trace (final (run_cells mock_world [''a'', ''b'']))) \<and>
   trace (final (run_cells mock_world [''a'', ''b''])) ! 8 = AStep (the_agent mock_world) ''a'' \<and>
   trace (final (run_cells mock_world [''a'', ''b''])) ! 9 = Print ''1 car found'' \<and>
   trace (final (run_cells mock_world [''a'', ''b''])) ! 10 = AStep (the_agent mock_world) ''b'' \<and>
   (\<exists>s. for_tasks mock_world [''a''] (loop_start mock_world [''a'', ''b'']) = Inr s \<and>
      stdout s = ''1 car found'' @ [CHR 0x0A]) \<and>
   stdout (final (run_cells mock_world [''a'', ''b''])) =
     ''1 car found'' @ [CHR 0x0A] @ ''1 car found'' @ [CHR 0x0A]"
proof -
  let ?tr = "trace (final (run_cells mock_world [''a'', ''b'']))"
  have h: "Suc 0 < length [''a'', ''b''] \<and> 10 + 2 * 0 < length ?tr"
    by (simp add: mock_run length_planned)
  have e: "console mock_world [] (take 8 ?tr) = []"
    by (simp add: mock_run planned_def setup_events_def mock_quiet)
  have o: "stdout (final (run_cells mock_world [''a'', ''b''])) =
      ''1 car found'' @ [CHR 0x0A] @ ''1 car found'' @ [CHR 0x0A]"
    by (simp add: mock_run planned_def setup_events_def mock_quiet car_response_def)
  note t = tasks_sequential [of "[''a'', ''b'']" mock_world]
  from t h have
    "?tr ! (8 + 2 * 0) = AStep (the_agent mock_world) ([''a'', ''b''] ! 0) \<and>
     ?tr ! (9 + 2 * 0) =
       Print (content (msg (astep_reply mock_world (take (8 + 2 * 0) ?tr)
         (the_agent mock_world) ([''a'', ''b''] ! 0)))) \<and>
     ?tr ! (10 + 2 * 0) = AStep (the_agent mock_world) ([''a'', ''b''] ! Suc 0) \<and>
     (\<exists>s. for_tasks mock_world (take (Suc 0) [''a'', ''b''])
          (loop_start mock_world [''a'', ''b'']) = Inr s \<and>
        stdout s =
          console mock_world [] (take (8 + 2 * 0) ?tr) @
          call_output mock_world (take (8 + 2 * 0) ?tr)
            (AStep (the_agent mock_world) ([''a'', ''b''] ! 0)) @
          content (msg (astep_reply mock_world (take (8 + 2 * 0) ?tr)
            (the_agent mock_world) ([''a'', ''b''] ! 0))) @ [CHR 0x0A])"
    by blast
  then show ?thesis
    using h o e by (simp add: mock_quiet car_response_def)
qed

subsection \<open>Console output\<close>




subsection \<open>Configuration record and system prompt\<close>



text \<open>
  Claim C9. The system prompt is the string assigned in cell 2. It is the content
  given to \<^verbatim>\<open>make_assistant_message\<close> and the content of the system message of the
  agent at construction and at every task invocation; the variable holds it at the
  end of every run, and no statement of the later cells changes the variable, from
  whatever state it runs.
\<close>

theorem system_prompt_fixed:
  "v_system_prompt (final (run_cells W ts)) = Some system_prompt \<and>
   (\<forall>n p. MakeAssistantMessage n p \<in> set (trace (final (run_cells W ts))) \<longrightarrow>
      p = system_prompt) \<and>
   (\<forall>ag. NewChatAgent ag \<in> set (trace (final (run_cells W ts))) \<longrightarrow>
      content (system_message ag) = system_prompt) \<and>
   (\<forall>ag t. AStep ag t \<in> set (trace (final (run_cells W ts))) \<longrightarrow>
      content (system_message ag) = system_prompt) \<and>
   (\<forall>s. \<forall>c\<in>set [cell3 W, cell4 W, cell5 W ts, cell6 W].
      v_system_prompt (final (c s)) = v_system_prompt s)"
proof (intro conjI allI impI ballI)
  show "v_system_prompt (final (run_cells W ts)) = Some system_prompt"
    using run_cells_char [of W ts] by simp
next
  fix n p
  assume "MakeAssistantMessage n p \<in> set (trace (final (run_cells W ts)))"
  then show "p = system_prompt"
    using run_event_cases [of "MakeAssistantMessage n p" W ts] by (auto simp: setup_events_def)
next
  fix ag
  assume "NewChatAgent ag \<in> set (trace (final (run_cells W ts)))"
  then have "ag = the_agent W"
    using run_event_cases [of "NewChatAgent ag" W ts] by (auto simp: setup_events_def)
  then show "content (system_message ag) = system_prompt"
    by (simp add: the_agent_def the_sys_msg_def)
next
  fix ag t
  assume "AStep ag t \<in> set (trace (final (run_cells W ts)))"
  then have "ag = the_agent W"
    using run_event_cases [of "AStep ag t" W ts] by (auto simp: setup_events_def)
  then show "content (system_message ag) = system_prompt"
    by (simp add: the_agent_def the_sys_msg_def)
next
  fix s c
  assume "c \<in> set [cell3 W, cell4 W, cell5 W ts, cell6 W]"
  then show "v_system_prompt (final (c s)) = v_system_prompt s"
    by (auto simp: cell3_frame cell4_frame cell5_frame cell6_frame)
qed

theorem system_prompt_fixed_witness:
  "AStep (the_agent mock_world) task_1 \<in> set (trace (final (notebook mock_world))) \<and>
   content (system_message (the_agent mock_world)) = system_prompt \<and>
   NewChatAgent (the_agent mock_world) \<in> set (trace (final (notebook mock_world))) \<and>
   v_system_prompt (final (notebook mock_world)) = Some system_prompt \<and>
   v_system_prompt (final (cell5 mock_world tasks (final (notebook mock_world)))) =
     Some system_prompt"
proof -
  have a: "AStep (the_agent mock_world) task_1 \<in> set (trace (final (run_cells mock_world tasks)))"
    "NewChatAgent (the_agent mock_world) \<in> set (trace (final (run_cells mock_world tasks)))"
    by (simp_all add: mock_run planned_def tasks_def setup_events_def)
  have c: "cell5 mock_world tasks \<in>
      set [cell3 mock_world, cell4 mock_world, cell5 mock_world tasks, cell6 mock_world]"
    by simp
  note t = system_prompt_fixed [of mock_world tasks]
  from t have v: "v_system_prompt (final (run_cells mock_world tasks)) = Some system_prompt"
    by (rule conjunct1)
  from t a(2) have p: "content (system_message (the_agent mock_world)) = system_prompt"
    by blast
  from t c have "v_system_prompt (final (cell5 mock_world tasks (final (run_cells mock_world tasks)))) =
      v_system_prompt (final (run_cells mock_world tasks))"
    by blast
  then show ?thesis
    unfolding notebook_def using a v p by simp
qed

subsection \<open>Environment and \<^verbatim>\<open>.env\<close> file\<close>

text \<open>
  Claim C10, as the code has it. No cell calls \<^verbatim>\<open>load_dotenv\<close>: no statement of the
  notebook other than an import changes the process environment, from whatever state
  it runs, and every \<^verbatim>\<open>os.getenv\<close> returns what the process environment holds after
  the imports made before the read. When those imports leave the environment as it
  was, the environment at the end of a run is the one at the start, every read
  returns what it held at the start, and a secret that it does not hold is read as
  absent whatever the \<^verbatim>\<open>.env\<close> file says.
\<close>

theorem reads_follow_imports:
  "(\<forall>s. \<forall>c\<in>set [cell2, assign_mcp_config, new_toolkit W, await_connect W, get_tools W,
        create_model W, make_sys_msg W, new_agent W, cell5 W ts, cell6 W].
      os_environ (final (c s)) = os_environ s) \<and>
   (\<forall>p k v. p < length (trace (final (run_cells W ts))) \<and>
        trace (final (run_cells W ts)) ! p = GetEnv k v \<longrightarrow>
      (p = 0 \<and> v = environ_cell3 W k) \<or> (p = 4 \<and> v = environ_cell4 W k)) \<and>
   ((\<forall>m e. import_env W m (dotenv_file W) e = e) \<longrightarrow>
      os_environ (final (run_cells W ts)) = environ W \<and>
      (\<forall>p k v. p < length (trace (final (run_cells W ts))) \<and>
          trace (final (run_cells W ts)) ! p = GetEnv k v \<longrightarrow> v = environ W k) \<and>
      (environ W ''ACI_API_KEY'' = None \<longrightarrow>
         trace (final (run_cells W ts)) ! 0 = GetEnv ''ACI_API_KEY'' None))"
proof (intro conjI allI impI ballI)
  fix s c
  assume "c \<in> set [cell2, assign_mcp_config, new_toolkit W, await_connect W, get_tools W,
        create_model W, make_sys_msg W, new_agent W, cell5 W ts, cell6 W]"
  then show "os_environ (final (c s)) = os_environ s"
    by (auto simp: statements_env_frame cell2_env_frame cell5_env_frame cell6_env_frame)
next
  fix p k v
  assume "p < length (trace (final (run_cells W ts))) \<and>
        trace (final (run_cells W ts)) ! p = GetEnv k v"
  then show "(p = 0 \<and> v = environ_cell3 W k) \<or> (p = 4 \<and> v = environ_cell4 W k)"
    using run_GetEnv_pos [of p W ts k v] by auto
next
  assume a: "\<forall>m e. import_env W m (dotenv_file W) e = e"
  then have i: "environ_cell3 W = environ W" "environ_cell4 W = environ W"
    by (simp_all add: imports_idle)
  show "os_environ (final (run_cells W ts)) = environ W"
    using run_cells_char [of W ts] i by simp
  {
    fix p k v
    assume "p < length (trace (final (run_cells W ts))) \<and>
          trace (final (run_cells W ts)) ! p = GetEnv k v"
    then show "v = environ W k"
      using run_GetEnv_pos [of p W ts k v] i by auto
  }
  assume "environ W ''ACI_API_KEY'' = None"
  then show "trace (final (run_cells W ts)) ! 0 = GetEnv ''ACI_API_KEY'' None"
    using run_first_events [of W ts] i by simp
qed

theorem reads_follow_imports_witness:
  "environ bare_world ''ACI_API_KEY'' = None \<and>
   dotenv_file bare_world ''ACI_API_KEY'' = Some ''aci-key'' \<and>
   trace (final (notebook bare_world)) ! 0 = GetEnv ''ACI_API_KEY'' None \<and>
   trace (final (notebook bare_world)) ! 4 = GetEnv ''GOOGLE_API_KEY'' None \<and>
   os_environ (final (notebook bare_world)) ''ACI_API_KEY'' = None \<and>
   os_environ (final (create_model bare_world (final (notebook bare_world)))) =
     os_environ (final (notebook bare_world))"
proof -
  let ?R = "run_cells bare_world tasks"
  have e: "environ bare_world ''ACI_API_KEY'' = None"
    by (simp add: bare_environ)
  have m: "\<forall>m e. import_env bare_world m (dotenv_file bare_world) e = e"
    by (simp add: bare_world_def mock_world_def)
  have g: "4 < length (trace (final ?R))"
    "trace (final ?R) ! 4 = GetEnv ''GOOGLE_API_KEY'' (environ_cell4 bare_world ''GOOGLE_API_KEY'')"
    by (simp_all add: bare_run planned_def setup_events_def)
  have c: "create_model bare_world \<in>
      set [cell2, assign_mcp_config, new_toolkit bare_world, await_connect bare_world,
        get_tools bare_world, create_model bare_world, make_sys_msg bare_world,
        new_agent bare_world, cell5 bare_world tasks, cell6 bare_world]"
    by simp
  note t = reads_follow_imports [of bare_world tasks]
  from t m have o: "os_environ (final ?R) = environ bare_world" by blast
  from t m e have a: "trace (final ?R) ! 0 = GetEnv ''ACI_API_KEY'' None" by blast
  from t c have f: "os_environ (final (create_model bare_world (final ?R))) =
      os_environ (final ?R)"
    by blast
  from t m g have "environ_cell4 bare_world ''GOOGLE_API_KEY'' = environ bare_world ''GOOGLE_API_KEY''"
    by blast
  then show ?thesis
    unfolding notebook_def using e o a f g by (simp add: bare_environ)
qed

text \<open>
  As the claim is worded (every read observes only the ambient environment, a secret
  present only in the \<^verbatim>\<open>.env\<close> file is read as absent) it fails when an imported
  library loads the file, as camel does: cell 3 imports camel before it reads
  \<^verbatim>\<open>ACI_API_KEY\<close>, and the read returns the value of the file.
\<close>

theorem reads_follow_imports_counterexample:
  "environ camel_world ''ACI_API_KEY'' = None \<and>
   dotenv_file camel_world ''ACI_API_KEY'' = Some ''aci-key'' \<and>
   trace (final (notebook camel_world)) ! 0 = GetEnv ''ACI_API_KEY'' (Some ''aci-key'')"
  using run_first_events [of camel_world tasks]
  by (simp add: notebook_def camel_environ)

text \<open>
  Claim C7, as the code has it. Building the configuration never raises and checks
  nothing: whatever \<^verbatim>\<open>os.getenv\<close> returns for \<^verbatim>\<open>ACI_API_KEY\<close> is stored. When that
  variable is absent (from the process environment, when cell 3 reads it) the record
  still has the key \<^verbatim>\<open>ACI_API_KEY\<close>, bound to \<^verbatim>\<open>None\<close>, and is passed on like that;
  when \<^verbatim>\<open>GOOGLE_API_KEY\<close> is absent the model is created with \<^verbatim>\<open>api_key=None\<close>. If a
  run fails, the exception was raised by a collaborator call, not by the notebook's
  own statements. When the imports leave the environment as it was at start, the
  environment that cells 3 and 4 read is the one at start.
\<close>

theorem absent_secret_passes_through:
  "(\<forall>s. \<exists>s'. assign_mcp_config s = Inr s' \<and>
      v_mcp_config s' = Some (mcp_config_dict (os_environ s ''ACI_API_KEY''))) \<and>
   (environ_cell3 W ''ACI_API_KEY'' = None \<longrightarrow>
      v_mcp_config (final (run_cells W ts)) = Some (mcp_config_dict None) \<and>
      trace (final (run_cells W ts)) ! 1 = NewToolkit (mcp_config_dict None)) \<and>
   config_env (mcp_config_dict None) = [(''ACI_API_KEY'', None)] \<and>
   (environ_cell4 W ''GOOGLE_API_KEY'' = None \<longrightarrow>
      (\<forall>m. ModelCreate m \<in> set (trace (final (run_cells W ts))) \<longrightarrow> api_key m = None)) \<and>
   (\<forall>e. failure (run_cells W ts) = Some e \<longrightarrow>
      fallible (last (trace (final (run_cells W ts)))) \<and>
      raises W (butlast (trace (final (run_cells W ts))))
        (last (trace (final (run_cells W ts)))) = Some e) \<and>
   ((\<forall>m e. import_env W m (dotenv_file W) e = e) \<longrightarrow>
      environ_cell3 W = environ W \<and> environ_cell4 W = environ W)"
proof (intro conjI allI impI)
  fix s
  show "\<exists>s'. assign_mcp_config s = Inr s' \<and>
      v_mcp_config s' = Some (mcp_config_dict (os_environ s ''ACI_API_KEY''))"
    by (simp add: assign_mcp_config_def getenv_def)
next
  assume a: "environ_cell3 W ''ACI_API_KEY'' = None"
  show "v_mcp_config (final (run_cells W ts)) = Some (mcp_config_dict None)"
    using run_cells_char [of W ts] a by (simp add: the_config_def)
  show "trace (final (run_cells W ts)) ! 1 = NewToolkit (mcp_config_dict None)"
    using run_first_events [of W ts] a by simp
next
  show "config_env (mcp_config_dict None) = [(''ACI_API_KEY'', None)]"
    by (rule config_env_dict)
next
  fix m
  assume "environ_cell4 W ''GOOGLE_API_KEY'' = None"
    and "ModelCreate m \<in> set (trace (final (run_cells W ts)))"
  then show "api_key m = None"
    using run_event_cases [of "ModelCreate m" W ts]
    by (auto simp: setup_events_def the_model_def gemini_model_def)
next
  fix e
  assume "failure (run_cells W ts) = Some e"
  from run_failure_Some [OF this]
  show "fallible (last (trace (final (run_cells W ts))))"
    and "raises W (butlast (trace (final (run_cells W ts))))
        (last (trace (final (run_cells W ts)))) = Some e"
    by simp_all
next
  assume "\<forall>m e. import_env W m (dotenv_file W) e = e"
  then show "environ_cell3 W = environ W" and "environ_cell4 W = environ W"
    by (simp_all add: imports_idle)
qed

theorem absent_secret_passes_through_witness:
  "environ bare_world ''ACI_API_KEY'' = None \<and>
   environ bare_world ''GOOGLE_API_KEY'' = None \<and>
   environ_cell3 bare_world = environ bare_world \<and>
   environ_cell4 bare_world = environ bare_world \<and>
   v_mcp_config (final (notebook bare_world)) = Some (mcp_config_dict None) \<and>
   trace (final (notebook bare_world)) ! 1 = NewToolkit (mcp_config_dict None) \<and>
   ModelCreate (gemini_model None) \<in> set (trace (final (notebook bare_world))) \<and>
   api_key (gemini_model None) = None \<and>
   failure (notebook bare_world) = None"
proof -
  have e: "environ bare_world ''ACI_API_KEY'' = None" "environ bare_world ''GOOGLE_API_KEY'' = None"
    by (simp_all add: bare_environ)
  have i: "\<forall>m e. import_env bare_world m (dotenv_file bare_world) e = e"
    by (simp add: bare_world_def mock_world_def)
  have m: "ModelCreate (gemini_model None) \<in> set (trace (final (run_cells bare_world tasks)))"
    by (simp add: bare_run planned_def setup_events_def the_model_def bare_environ)
  note t = absent_secret_passes_through [of bare_world tasks]
  from t i have j: "environ_cell3 bare_world = environ bare_world"
    "environ_cell4 bare_world = environ bare_world"
    by blast+
  from t e j have c: "v_mcp_config (final (run_cells bare_world tasks)) = Some (mcp_config_dict None)"
    "trace (final (run_cells bare_world tasks)) ! 1 = NewToolkit (mcp_config_dict None)"
    by simp_all
  from t e j m have k: "api_key (gemini_model None) = None" by simp
  show ?thesis
    unfolding notebook_def using e j c m k by (simp add: bare_run)
qed

text \<open>
  As the claim is worded (for any of the four secrets, a key of the record bound to
  an absent value) it fails: the only key of the \<^verbatim>\<open>env\<close> mapping is \<^verbatim>\<open>ACI_API_KEY\<close>, so
  the record has no key for the absent \<^verbatim>\<open>REPLICATE_API_TOKEN\<close>.
\<close>

theorem absent_secret_counterexample:
  "environ bare_world ''REPLICATE_API_TOKEN'' = None \<and>
   failure (notebook bare_world) = None \<and>
   v_mcp_config (final (notebook bare_world)) = Some (mcp_config_dict None) \<and>
   map fst (config_env (mcp_config_dict None)) = [''ACI_API_KEY''] \<and>
   ''REPLICATE_API_TOKEN'' \<notin> set (map fst (config_env (mcp_config_dict None)))"
proof -
  have "v_mcp_config (final (run_cells bare_world tasks)) = Some (mcp_config_dict None)"
    using run_cells_char [of bare_world tasks] by (simp add: the_config_def bare_environ)
  then show ?thesis
    by (simp add: notebook_def bare_run bare_environ config_env_dict)
qed

end
